theory Spec2Isabelle
  imports Complex_Main
begin

section \<open>Python values, buffers and errors\<close>

text \<open>
  The module under verification is \<^verbatim>\<open>_qaoa/_qaoa_result.py\<close>: the class
  \<^verbatim>\<open>QAOAResult\<close> with its constructor, the class method \<^verbatim>\<open>from_result\<close> and the
  plotting methods. Scores (Python floats returned by \<^verbatim>\<open>qubo.evaluate\<close>) are modelled
  as reals, occurrence counts (Python ints) as integers, a bit vector as a list of
  booleans (most significant bit first, as \<^verbatim>\<open>str(bitvector)\<close> prints it).
\<close>

type_synonym bitvector = "bool list"

text \<open>
  Every exception the modelled code can raise is a constructor.
  \<^item> \<open>EmptyRawResult\<close> is \<^verbatim>\<open>ValueError("Argument `raw_result` is empty")\<close> of
    \<^verbatim>\<open>from_result\<close>;
  \<^item> \<open>ArrayLikeError name\<close> is what \<^verbatim>\<open>check_arraylike(x, name, ndim=1)\<close> raises;
  \<^item> \<open>BitVectorError s\<close> is what \<^verbatim>\<open>BitVector(s)\<close> raises on a string that is not binary;
  \<^item> \<open>FreqShapeError\<close> is what \<^verbatim>\<open>Freq(...)\<close> raises on sequences of unequal length;
  \<^item> \<open>KeyError k\<close> is a missing dictionary key, \<open>TypeError\<close> is \<^verbatim>\<open>list(x)\<close> on a
    value that is not iterable;
  \<^item> \<open>IntLiteralError s\<close> is the \<^verbatim>\<open>ValueError\<close> of \<^verbatim>\<open>int(s, 2)\<close>, \<open>IndexError\<close> is a list
    index out of range.
\<close>

datatype error =
    EmptyRawResult
  | ArrayLikeError string
  | BitVectorError string
  | FreqShapeError
  | KeyError string
  | TypeError
  | IntLiteralError string
  | IndexError

definition and_then :: "error + 'a \<Rightarrow> ('a \<Rightarrow> error + 'b) \<Rightarrow> error + 'b" where
  "and_then m f = (case m of Inl e \<Rightarrow> Inl e | Inr x \<Rightarrow> f x)"

fun map_result :: "('a \<Rightarrow> error + 'b) \<Rightarrow> 'a list \<Rightarrow> error + 'b list" where
  "map_result f [] = Inr []"
| "map_result f (x # xs) =
     (case f x of
        Inl e \<Rightarrow> Inl e
      | Inr y \<Rightarrow> (case map_result f xs of Inl e \<Rightarrow> Inl e | Inr ys \<Rightarrow> Inr (y # ys)))"

text \<open>
  A Python value is a number, a reference to a mutable sequence buffer (a list or an
  array) on the heap, or an opaque configuration object (\<^verbatim>\<open>BackendConfig\<close>,
  \<^verbatim>\<open>OptimizerConfig\<close>). The heap is a list of buffers; a reference is an index into it;
  allocation appends.
\<close>

datatype pyval = PNum real | PRef nat | PConfig string

type_synonym buffer = "pyval list"
type_synonym heap = "buffer list"

definition deref :: "heap \<Rightarrow> pyval \<Rightarrow> buffer option" where
  "deref h v = (case v of PRef a \<Rightarrow> (if a < length h then Some (h ! a) else None) | _ \<Rightarrow> None)"

text \<open>The state the code runs in: the heap, and the log of calls of \<^verbatim>\<open>qubo.evaluate\<close>.\<close>

record world =
  heap :: heap
  evaluate_log :: "bitvector list"

text \<open>\<^verbatim>\<open>list(x)\<close>: a new list with the elements of the iterable (a shallow copy).\<close>

definition py_list :: "world \<Rightarrow> pyval \<Rightarrow> error + (pyval \<times> world)" where
  "py_list w v =
     (case deref (heap w) v of
        None \<Rightarrow> Inl TypeError
      | Some buf \<Rightarrow> Inr (PRef (length (heap w)), w\<lparr>heap := heap w @ [buf]\<rparr>))"

text \<open>\<^verbatim>\<open>d[k]\<close> on a dictionary.\<close>

definition py_getitem :: "(string \<rightharpoonup> 'v) \<Rightarrow> string \<Rightarrow> error + 'v" where
  "py_getitem d k = (case d k of None \<Rightarrow> Inl (KeyError k) | Some v \<Rightarrow> Inr v)"

section \<open>The collaborators of the module\<close>

text \<open>
  Modelled from the spec: \<^verbatim>\<open>BitVector\<close> of \<^verbatim>\<open>tno.quantum.utils\<close> is not part of the
  module. The spec's Candidate is a fixed-length sequence of binary values built from a
  bitstring key whose characters are restricted to \<^verbatim>\<open>'0'\<close> and \<^verbatim>\<open>'1'\<close>, with a
  string encoding that is read most significant bit first.
\<close>

definition is_bit :: "char \<Rightarrow> bool" where
  "is_bit c = (c = CHR ''0'' \<or> c = CHR ''1'')"

definition BitVector :: "string \<Rightarrow> error + bitvector" where
  "BitVector s =
     (if list_all is_bit s then Inr (map (\<lambda>c. c = CHR ''1'') s) else Inl (BitVectorError s))"

definition str_bitvector :: "bitvector \<Rightarrow> string" where
  "str_bitvector b = map (\<lambda>x. if x then CHR ''1'' else CHR ''0'') b"

text \<open>
  \<^verbatim>\<open>qubo.evaluate(b)\<close>: the objective is a parameter of the model (a function from bit
  vectors to scores); each call is recorded in the log.
\<close>

type_synonym QUBO = "bitvector \<Rightarrow> real"

definition evaluate :: "QUBO \<Rightarrow> bitvector \<Rightarrow> world \<Rightarrow> real \<times> world" where
  "evaluate qubo b w = (qubo b, w\<lparr>evaluate_log := evaluate_log w @ [b]\<rparr>)"

text \<open>\<^verbatim>\<open>[qubo.evaluate(b) for b in bitvectors]\<close>\<close>

fun evaluate_all :: "QUBO \<Rightarrow> bitvector list \<Rightarrow> world \<Rightarrow> real list \<times> world" where
  "evaluate_all qubo [] w = ([], w)"
| "evaluate_all qubo (b # bs) w =
     (case evaluate qubo b w of
        (e, w1) \<Rightarrow> (case evaluate_all qubo bs w1 of (es, w2) \<Rightarrow> (e # es, w2)))"

text \<open>
  Modelled from the spec: \<^verbatim>\<open>Freq\<close> of \<^verbatim>\<open>tno.quantum.optimization.qubo.components\<close> is
  not part of the module. The spec's FrequencyTable is built from three sequences of
  equal length, one entry per index, fails on unequal lengths, does not deduplicate,
  and iterates as (candidate, score, count) triples in insertion order.
\<close>

type_synonym Freq = "(bitvector \<times> real \<times> int) list"

definition Freq :: "bitvector list \<Rightarrow> real list \<Rightarrow> int list \<Rightarrow> error + Freq" where
  "Freq bitvectors energies num_occurrences =
     (if length bitvectors = length energies \<and> length energies = length num_occurrences
      then Inr (zip bitvectors (zip energies num_occurrences))
      else Inl FreqShapeError)"

text \<open>
  Modelled from the spec: \<^verbatim>\<open>check_arraylike(x, name, ndim=1)\<close> of
  \<^verbatim>\<open>tno.quantum.utils.validation\<close> is not part of the module. The spec says that
  every array-like field is validated to be one-dimensional before acceptance. A value
  is one-dimensional when it refers to a buffer whose elements are all numbers (a
  number alone has dimension 0, a buffer holding buffers has a higher dimension or is
  ragged). The validated value is returned as it is: whether the helper copies is not
  assumed.
\<close>

definition is_number :: "pyval \<Rightarrow> bool" where
  "is_number v = (case v of PNum _ \<Rightarrow> True | _ \<Rightarrow> False)"

definition one_dimensional :: "heap \<Rightarrow> pyval \<Rightarrow> bool" where
  "one_dimensional h v = (case deref h v of None \<Rightarrow> False | Some buf \<Rightarrow> list_all is_number buf)"

definition check_arraylike :: "heap \<Rightarrow> pyval \<Rightarrow> string \<Rightarrow> error + pyval" where
  "check_arraylike h x name = (if one_dimensional h x then Inr x else Inl (ArrayLikeError name))"

section \<open>The class QAOAResult\<close>

record QAOAResult =
  best_bitvector :: bitvector
  best_value :: real
  freq :: Freq
  init_beta :: pyval
  init_gamma :: pyval
  final_beta :: pyval
  final_gamma :: pyval
  expval_history :: pyval
  training_backend :: pyval
  evaluation_backend :: pyval
  optimizer :: pyval

text \<open>
  \<^verbatim>\<open>QAOAResult.__init__\<close> (lines 26 to 64): the base class stores the best bit vector,
  the best value and the frequency object; the five array-likes are checked in the
  order of the source, the first failing check raises; the three configuration objects
  are stored unchecked.
\<close>

definition QAOAResult_init ::
  "heap \<Rightarrow> bitvector \<Rightarrow> real \<Rightarrow> Freq \<Rightarrow> pyval \<Rightarrow> pyval \<Rightarrow> pyval \<Rightarrow> pyval \<Rightarrow> pyval
     \<Rightarrow> pyval \<Rightarrow> pyval \<Rightarrow> pyval \<Rightarrow> error + QAOAResult" where
  "QAOAResult_init h best_bitvector' best_value' freq' init_beta' init_gamma' final_beta'
       final_gamma' expval_history' training_backend' evaluation_backend' optimizer' =
     and_then (check_arraylike h init_beta' ''init_beta'') (\<lambda>ib.
     and_then (check_arraylike h init_gamma' ''init_gamma'') (\<lambda>ig.
     and_then (check_arraylike h final_beta' ''final_beta'') (\<lambda>fb.
     and_then (check_arraylike h final_gamma' ''final_gamma'') (\<lambda>fg.
     and_then (check_arraylike h expval_history' ''expval_history'') (\<lambda>eh.
       Inr \<lparr> best_bitvector = best_bitvector', best_value = best_value', freq = freq',
             init_beta = ib, init_gamma = ig, final_beta = fb, final_gamma = fg,
             expval_history = eh, training_backend = training_backend',
             evaluation_backend = evaluation_backend', optimizer = optimizer' \<rparr>)))))"

subsection \<open>from_result\<close>

text \<open>
  The raw result is a Python mapping from bitstrings to counts: an association list in
  iteration order, with pairwise distinct keys. \<^verbatim>\<open>raw_result[s]\<close> is a lookup.
\<close>

type_synonym raw_result = "(string \<times> int) list"

definition getitem :: "raw_result \<Rightarrow> string \<Rightarrow> error + int" where
  "getitem raw s = py_getitem (map_of raw) s"

text \<open>
  The selection loop (lines 94 to 107). The loop state is the triple of the three
  variables \<^verbatim>\<open>best_bitvector\<close>, \<^verbatim>\<open>best_value\<close>, \<^verbatim>\<open>occ_best_bitvector\<close>, each
  \<^verbatim>\<open>None\<close> at the start.
\<close>

type_synonym best_state = "bitvector option \<times> real option \<times> int option"

fun best_step :: "best_state \<Rightarrow> bitvector \<times> real \<times> int \<Rightarrow> best_state" where
  "best_step (best_bv, best_val, occ_best) (bv, val, occ) =
     (case best_val of
        None \<Rightarrow> (Some bv, Some val, Some occ)
      | Some v \<Rightarrow>
          (case occ_best of
             None \<Rightarrow> (Some bv, Some val, Some occ)
           | Some ob \<Rightarrow>
               (if val < v \<or> (val = v \<and> occ > ob)
                then (Some bv, Some val, Some occ)
                else (best_bv, best_val, occ_best))))"

definition find_best :: "Freq \<Rightarrow> best_state" where
  "find_best fr = foldl best_step (None, None, None) fr"

text \<open>
  The first block of \<^verbatim>\<open>from_result\<close> (lines 88 to 92): the three list
  comprehensions over the keys of the mapping, in iteration order, and the frequency
  object built from them. A key that is not binary raises before anything is
  evaluated.
\<close>

definition build_freq :: "world \<Rightarrow> QUBO \<Rightarrow> raw_result \<Rightarrow> error + (Freq \<times> world)" where
  "build_freq w qubo raw =
     and_then (map_result BitVector (map fst raw)) (\<lambda>bitvectors.
     case evaluate_all qubo bitvectors w of (energies, w0) \<Rightarrow>
     and_then (map_result (getitem raw) (map fst raw)) (\<lambda>num_occurrences.
     and_then (Freq bitvectors energies num_occurrences) (\<lambda>fr. Inr (fr, w0))))"

text \<open>
  \<^verbatim>\<open>from_result\<close> (lines 66 to 132), statement by statement: the frequency object,
  the selection loop, the check for an empty result, the five copies
  \<^verbatim>\<open>list(properties[...])\<close>, the three further lookups in \<^verbatim>\<open>properties\<close>, and the
  constructor.
\<close>

definition from_result ::
  "world \<Rightarrow> QUBO \<Rightarrow> raw_result \<Rightarrow> (string \<rightharpoonup> pyval) \<Rightarrow> error + (QAOAResult \<times> world)" where
  "from_result w qubo raw properties =
     and_then (build_freq w qubo raw) (\<lambda>(fr, w0).
     case find_best fr of (best_bv, best_val, occ_best) \<Rightarrow>
     (case best_bv of
        None \<Rightarrow> Inl EmptyRawResult
      | Some bb \<Rightarrow>
     (case best_val of
        None \<Rightarrow> Inl EmptyRawResult
      | Some bval \<Rightarrow>
     and_then (py_getitem properties ''init_beta'') (\<lambda>p1.
     and_then (py_list w0 p1) (\<lambda>(ib, w1).
     and_then (py_getitem properties ''init_gamma'') (\<lambda>p2.
     and_then (py_list w1 p2) (\<lambda>(ig, w2).
     and_then (py_getitem properties ''final_beta'') (\<lambda>p3.
     and_then (py_list w2 p3) (\<lambda>(fb, w3).
     and_then (py_getitem properties ''final_gamma'') (\<lambda>p4.
     and_then (py_list w3 p4) (\<lambda>(fg, w4).
     and_then (py_getitem properties ''expval_history'') (\<lambda>p5.
     and_then (py_list w4 p5) (\<lambda>(eh, w5).
     and_then (py_getitem properties ''training_backend'') (\<lambda>tb.
     and_then (py_getitem properties ''evaluation_backend'') (\<lambda>eb.
     and_then (py_getitem properties ''optimizer'') (\<lambda>opt.
     and_then (QAOAResult_init (heap w5) bb bval fr ib ig fb fg eh tb eb opt) (\<lambda>r.
       Inr (r, w5))))))))))))))))))"

subsection \<open>The shot histogram\<close>

text \<open>\<^verbatim>\<open>itertools.product(xs, repeat=n)\<close>: the rightmost position advances fastest.\<close>

fun product_repeat :: "'a list \<Rightarrow> nat \<Rightarrow> 'a list list" where
  "product_repeat xs 0 = [[]]"
| "product_repeat xs (Suc n) = concat (map (\<lambda>x. map (\<lambda>p. x # p) (product_repeat xs n)) xs)"

text \<open>
  \<^verbatim>\<open>int(s, 2)\<close> on a string of binary digits, the only strings \<^verbatim>\<open>str(bitvector)\<close>
  yields: the empty string is not a literal and raises \<^verbatim>\<open>ValueError\<close>, as does any
  other character (signs, blanks, underscores and the prefix \<^verbatim>\<open>0b\<close>, which Python
  accepts, do not occur in such strings and are not modelled).
\<close>

definition bits_value :: "string \<Rightarrow> nat" where
  "bits_value s = foldl (\<lambda>acc c. 2 * acc + (if c = CHR ''1'' then 1 else 0)) 0 s"

definition int_base2 :: "string \<Rightarrow> error + nat" where
  "int_base2 s = (if s \<noteq> [] \<and> list_all is_bit s then Inr (bits_value s) else Inl (IntLiteralError s))"

text \<open>
  The accumulation loop (lines 159 to 161): \<^verbatim>\<open>height[i] += n\<close> raises
  \<^verbatim>\<open>IndexError\<close> when \<open>i\<close> is not an index of the list (\<open>i\<close> is never negative).
\<close>

fun accumulate :: "Freq \<Rightarrow> int list \<Rightarrow> error + int list" where
  "accumulate [] height = Inr height"
| "accumulate ((bv, val, n) # rest) height =
     (case int_base2 (str_bitvector bv) of
        Inl e \<Rightarrow> Inl e
      | Inr i \<Rightarrow>
          (if i < length height then accumulate rest (height[i := height ! i + n])
           else Inl IndexError))"

text \<open>
  \<^verbatim>\<open>plot_shots_histogram\<close> (lines 147 to 166): the value is the pair of lists handed to
  \<^verbatim>\<open>ax.bar\<close>, the labels and the heights; drawing itself is outside the model.
\<close>

definition plot_shots_histogram :: "QAOAResult \<Rightarrow> error + (string list \<times> int list)" where
  "plot_shots_histogram self =
     (let n_bits = length (best_bitvector self);
          x_values = product_repeat ''01'' n_bits;
          height = map (\<lambda>_. 0) x_values
      in and_then (accumulate (freq self) height) (\<lambda>height'. Inr (x_values, height')))"

section \<open>Notions of the specification\<close>

text \<open>
  The specification's selection rule, in its own words: entry \<open>i\<close> of the table has
  a minimal score; among the entries with that score it has a maximal count; among the
  entries equal to it on both, it comes first.
\<close>

abbreviation candidate_at :: "Freq \<Rightarrow> nat \<Rightarrow> bitvector" where
  "candidate_at fr i \<equiv> fst (fr ! i)"

abbreviation score_at :: "Freq \<Rightarrow> nat \<Rightarrow> real" where
  "score_at fr i \<equiv> fst (snd (fr ! i))"

abbreviation count_at :: "Freq \<Rightarrow> nat \<Rightarrow> int" where
  "count_at fr i \<equiv> snd (snd (fr ! i))"

definition selected :: "Freq \<Rightarrow> nat \<Rightarrow> bool" where
  "selected fr i =
     (i < length fr \<and>
      (\<forall>j<length fr. score_at fr i \<le> score_at fr j) \<and>
      (\<forall>j<length fr. score_at fr j = score_at fr i \<longrightarrow> count_at fr j \<le> count_at fr i) \<and>
      (\<forall>j<i. \<not> (score_at fr j = score_at fr i \<and> count_at fr j = count_at fr i)))"

text \<open>The sum of the occurrence counts of a table, and the entries that decode to an index.\<close>

definition total_count :: "Freq \<Rightarrow> int" where
  "total_count fr = sum_list (map (\<lambda>e. snd (snd e)) fr)"

definition entries_at :: "Freq \<Rightarrow> nat \<Rightarrow> Freq" where
  "entries_at fr k = filter (\<lambda>e. int_base2 (str_bitvector (fst e)) = Inr k) fr"

text \<open>Every candidate of the table has \<open>n\<close> bits.\<close>

definition all_bits :: "nat \<Rightarrow> Freq \<Rightarrow> bool" where
  "all_bits n fr = list_all (\<lambda>e. length (fst e) = n) fr"

text \<open>
  A well-formed trace bundle: the five array-like entries are present and refer to
  one-dimensional buffers, the three configuration entries are present.
\<close>

definition trace_ok :: "heap \<Rightarrow> (string \<rightharpoonup> pyval) \<Rightarrow> bool" where
  "trace_ok h props =
     (list_all (\<lambda>k. case props k of None \<Rightarrow> False | Some v \<Rightarrow> one_dimensional h v)
        [''init_beta'', ''init_gamma'', ''final_beta'', ''final_gamma'', ''expval_history''] \<and>
      list_all (\<lambda>k. props k \<noteq> None)
        [''training_backend'', ''evaluation_backend'', ''optimizer''])"

text \<open>
  Later writes of the caller into buffers: each pair is an address and the new content
  of the buffer at that address.
\<close>

definition mutate :: "heap \<Rightarrow> (nat \<times> buffer) list \<Rightarrow> heap" where
  "mutate h ups = foldl (\<lambda>h' (a, b). h'[a := b]) h ups"

definition owned_by_caller :: "world \<Rightarrow> (nat \<times> buffer) list \<Rightarrow> bool" where
  "owned_by_caller w ups = list_all (\<lambda>(a, b). a < length (heap w)) ups"

text \<open>
  The table the specification describes for a raw sample map: one entry per key, in the
  order of the map, holding the bits of the key, the objective at these bits and the
  count of the key.
\<close>

definition key_bits :: "string \<Rightarrow> bitvector" where
  "key_bits s = map (\<lambda>c. c = CHR ''1'') s"

definition table_of :: "QUBO \<Rightarrow> raw_result \<Rightarrow> Freq" where
  "table_of qubo raw = map (\<lambda>(k, n). (key_bits k, qubo (key_bits k), n)) raw"

text \<open>The five array-like fields of a result, in the order of the constructor.\<close>

definition trace_names :: "string list" where
  "trace_names = [''init_beta'', ''init_gamma'', ''final_beta'', ''final_gamma'', ''expval_history'']"

definition trace_fields :: "QAOAResult \<Rightarrow> pyval list" where
  "trace_fields r = [init_beta r, init_gamma r, final_beta r, final_gamma r, expval_history r]"

text \<open>The heights the specification describes: bucket \<open>k\<close> sums the entries that decode to \<open>k\<close>.\<close>

definition bucket_heights :: "nat \<Rightarrow> Freq \<Rightarrow> int list" where
  "bucket_heights n fr = map (\<lambda>k. total_count (entries_at fr k)) [0..<2 ^ n]"

section \<open>Example inputs\<close>

definition raw_example :: raw_result where
  "raw_example = [(''00'', 5), (''01'', 3), (''10'', 3), (''11'', 1)]"

definition scores_tie :: QUBO where
  "scores_tie b =
     (if b = [False, False] then 2 else if b = [False, True] then 1
      else if b = [True, False] then 1 else 5)"

definition scores_strict :: QUBO where
  "scores_strict b =
     (if b = [False, False] then 2 else if b = [False, True] then 1
      else if b = [True, False] then 1 / 2 else 5)"

definition world_example :: world where
  "world_example =
     \<lparr> heap = [[PNum 1, PNum 2], [PNum 3, PNum 4], [PNum 5, PNum 6, PNum 7],
               [PNum 8, PNum 9, PNum 10, PNum 11], [PNum 12]],
       evaluate_log = [] \<rparr>"

definition trace_example :: "string \<rightharpoonup> pyval" where
  "trace_example =
     map_of
       [(''init_beta'', PRef 0), (''init_gamma'', PRef 1), (''final_beta'', PRef 2),
        (''final_gamma'', PRef 3), (''expval_history'', PRef 4),
        (''training_backend'', PConfig ''training''),
        (''evaluation_backend'', PConfig ''evaluation''),
        (''optimizer'', PConfig ''optimizer'')]"

text \<open>A result whose only candidate has no bits, and a table with candidates of two lengths.\<close>

definition result_no_bits :: QAOAResult where
  "result_no_bits =
     \<lparr> best_bitvector = [], best_value = 0, freq = [([], 0, 5)],
       init_beta = PRef 0, init_gamma = PRef 1, final_beta = PRef 2, final_gamma = PRef 3,
       expval_history = PRef 4, training_backend = PConfig ''training'',
       evaluation_backend = PConfig ''evaluation'', optimizer = PConfig ''optimizer'' \<rparr>"

definition raw_no_bits :: raw_result where
  "raw_no_bits = [([], 5)]"

definition raw_two_lengths :: raw_result where
  "raw_two_lengths = [(''0'', 1), (''11'', 2)]"

definition scores_length :: QUBO where
  "scores_length b = real (length b)"

text \<open>The result and the state that the example inputs give, and later writes of the caller.\<close>

definition result_example :: QAOAResult where
  "result_example =
     \<lparr> best_bitvector = [False, True], best_value = 1,
       freq = [([False, False], 2, 5), ([False, True], 1, 3), ([True, False], 1, 3),
               ([True, True], 5, 1)],
       init_beta = PRef 5, init_gamma = PRef 6, final_beta = PRef 7, final_gamma = PRef 8,
       expval_history = PRef 9, training_backend = PConfig ''training'',
       evaluation_backend = PConfig ''evaluation'', optimizer = PConfig ''optimizer'' \<rparr>"

definition writes_example :: "(nat \<times> buffer) list" where
  "writes_example = [(0, [PNum 0, PNum 0]), (2, []), (4, [PNum 7, PRef 0])]"

text \<open>A heap with a number where \<^verbatim>\<open>expval_history\<close> is looked for: a value of dimension 0.\<close>

definition scalar_example :: pyval where
  "scalar_example = PNum 3"

section \<open>Sums, lists and the selection loop\<close>

lemma and_then_Inr [simp]: "and_then (Inr x) f = f x"
  by (simp add: and_then_def)

lemma and_then_Inl [simp]: "and_then (Inl e) f = Inl e"
  by (simp add: and_then_def)

lemma and_then_eq_Inr: "and_then m f = Inr y \<longleftrightarrow> (\<exists>x. m = Inr x \<and> f x = Inr y)"
  by (cases m) simp_all

lemma evaluate_all_eq:
  "evaluate_all qubo bs w = (map qubo bs, w\<lparr>evaluate_log := evaluate_log w @ bs\<rparr>)"
  by (induction bs arbitrary: w) (simp_all add: evaluate_def)

lemma map_result_Inr_iff: "map_result f xs = Inr ys \<longleftrightarrow> map f xs = map Inr ys"
proof (induction xs arbitrary: ys)
  case Nil
  then show ?case by auto
next
  case (Cons x xs)
  show ?case
  proof (cases "f x")
    case (Inl e)
    then show ?thesis by (cases ys) auto
  next
    case (Inr y)
    then show ?thesis using Cons.IH
      by (cases ys; cases "map_result f xs") auto
  qed
qed

lemma map_result_length: "map_result f xs = Inr ys \<Longrightarrow> length ys = length xs"
  by (metis length_map map_result_Inr_iff)

lemma map_result_total:
  "list_all (\<lambda>x. \<not> isl (f x)) xs \<Longrightarrow> map_result f xs = Inr (map (\<lambda>x. projr (f x)) xs)"
  by (induction xs) (auto split: sum.splits)

lemma getitem_keys: "k \<in> fst ` set raw \<Longrightarrow> \<exists>n. getitem raw k = Inr n"
  by (cases "map_of raw k") (auto simp: getitem_def py_getitem_def map_of_eq_None_iff)

lemma getitem_distinct:
  "distinct (map fst raw) \<Longrightarrow> (k, n) \<in> set raw \<Longrightarrow> getitem raw k = Inr n"
  by (simp add: getitem_def py_getitem_def)

lemma num_occurrences_distinct:
  assumes "distinct (map fst raw)"
  shows "map_result (getitem raw) (map fst raw) = Inr (map snd raw)"
proof -
  have "map (getitem raw) (map fst raw) = map Inr (map snd raw)"
    using assms by (auto simp: getitem_distinct)
  then show ?thesis by (simp only: map_result_Inr_iff)
qed

lemma num_occurrences_total: "\<exists>ns. map_result (getitem raw) (map fst raw) = Inr ns"
proof -
  have "list_all (\<lambda>k. \<not> isl (getitem raw k)) (map fst raw)"
    unfolding list_all_iff using getitem_keys [of _ raw] by fastforce
  then show ?thesis using map_result_total by blast
qed

lemma BitVector_Inr_iff:
  "BitVector s = Inr b \<longleftrightarrow> list_all is_bit s \<and> b = map (\<lambda>c. c = CHR ''1'') s"
  by (auto simp: BitVector_def)

lemma bitvectors_total:
  "list_all (list_all is_bit) keys \<Longrightarrow>
     map_result BitVector keys = Inr (map (map (\<lambda>c. c = CHR ''1'')) keys)"
  by (induction keys) (simp_all add: BitVector_def)

lemma find_best_snoc: "find_best (fr @ [x]) = best_step (find_best fr) x"
  by (simp add: find_best_def)

lemma find_best_spec:
  "fr \<noteq> [] \<Longrightarrow>
   \<exists>i<length fr.
     find_best fr = (Some (fst (fr ! i)), Some (fst (snd (fr ! i))), Some (snd (snd (fr ! i)))) \<and>
     (\<forall>j<length fr. fst (snd (fr ! i)) \<le> fst (snd (fr ! j))) \<and>
     (\<forall>j<length fr. fst (snd (fr ! j)) = fst (snd (fr ! i)) \<longrightarrow>
                      snd (snd (fr ! j)) \<le> snd (snd (fr ! i))) \<and>
     (\<forall>j<i. \<not> (fst (snd (fr ! j)) = fst (snd (fr ! i)) \<and>
                 snd (snd (fr ! j)) = snd (snd (fr ! i))))"
proof (induction fr rule: rev_induct)
  case Nil
  then show ?case by simp
next
  case (snoc x fr)
  obtain b v n where x: "x = (b, v, n)" by (cases x) auto
  show ?case
  proof (cases "fr = []")
    case True
    then show ?thesis by (simp add: find_best_def x)
  next
    case False
    from snoc.IH [OF False] obtain i where i: "i < length fr"
      and fb: "find_best fr = (Some (fst (fr ! i)), Some (fst (snd (fr ! i))), Some (snd (snd (fr ! i))))"
      and mn: "\<forall>j<length fr. fst (snd (fr ! i)) \<le> fst (snd (fr ! j))"
      and mx: "\<forall>j<length fr. fst (snd (fr ! j)) = fst (snd (fr ! i)) \<longrightarrow>
                      snd (snd (fr ! j)) \<le> snd (snd (fr ! i))"
      and fs: "\<forall>j<i. \<not> (fst (snd (fr ! j)) = fst (snd (fr ! i)) \<and>
                 snd (snd (fr ! j)) = snd (snd (fr ! i)))"
      by blast
    let ?fr = "fr @ [x]"
    have old: "\<And>j. j < length fr \<Longrightarrow> ?fr ! j = fr ! j" by (simp add: nth_append)
    have new: "?fr ! length fr = x" by simp
    have split: "\<And>j. j < length ?fr \<Longrightarrow> j < length fr \<or> j = length fr" by auto
    show ?thesis
    proof (cases "v < fst (snd (fr ! i)) \<or> (v = fst (snd (fr ! i)) \<and> n > snd (snd (fr ! i)))")
      case True
      have step: "find_best ?fr = (Some b, Some v, Some n)"
        using True by (simp add: find_best_snoc fb x)
      have "length fr < length ?fr" by simp
      moreover have "find_best ?fr = (Some (fst (?fr ! length fr)), Some (fst (snd (?fr ! length fr))),
          Some (snd (snd (?fr ! length fr))))"
        using step by (simp add: x)
      moreover have "\<forall>j<length ?fr. fst (snd (?fr ! length fr)) \<le> fst (snd (?fr ! j))"
      proof (intro allI impI)
        fix j assume "j < length ?fr"
        then consider "j < length fr" | "j = length fr" using split by blast
        then show "fst (snd (?fr ! length fr)) \<le> fst (snd (?fr ! j))"
        proof cases
          case 1
          then show ?thesis using True mn old [OF 1] by (fastforce simp: x)
        next
          case 2
          then show ?thesis by simp
        qed
      qed
      moreover have "\<forall>j<length ?fr. fst (snd (?fr ! j)) = fst (snd (?fr ! length fr)) \<longrightarrow>
                      snd (snd (?fr ! j)) \<le> snd (snd (?fr ! length fr))"
      proof (intro allI impI)
        fix j assume "j < length ?fr" and e: "fst (snd (?fr ! j)) = fst (snd (?fr ! length fr))"
        then consider "j < length fr" | "j = length fr" using split by blast
        then show "snd (snd (?fr ! j)) \<le> snd (snd (?fr ! length fr))"
        proof cases
          case 1
          then show ?thesis using True mn mx e old [OF 1] by (fastforce simp: x)
        next
          case 2
          then show ?thesis by simp
        qed
      qed
      moreover have "\<forall>j<length fr. \<not> (fst (snd (?fr ! j)) = fst (snd (?fr ! length fr)) \<and>
                 snd (snd (?fr ! j)) = snd (snd (?fr ! length fr)))"
      proof (intro allI impI)
        fix j assume 1: "j < length fr"
        show "\<not> (fst (snd (?fr ! j)) = fst (snd (?fr ! length fr)) \<and>
                 snd (snd (?fr ! j)) = snd (snd (?fr ! length fr)))"
          using True mn mx old [OF 1] 1 by (fastforce simp: x)
      qed
      ultimately show ?thesis by blast
    next
      case False
      have step: "find_best ?fr = find_best fr"
        using False by (simp add: find_best_snoc fb x)
      have "i < length ?fr" using i by simp
      moreover have "find_best ?fr = (Some (fst (?fr ! i)), Some (fst (snd (?fr ! i))),
          Some (snd (snd (?fr ! i))))"
        using step fb old [OF i] by simp
      moreover have "\<forall>j<length ?fr. fst (snd (?fr ! i)) \<le> fst (snd (?fr ! j))"
      proof (intro allI impI)
        fix j assume "j < length ?fr"
        then consider "j < length fr" | "j = length fr" using split by blast
        then show "fst (snd (?fr ! i)) \<le> fst (snd (?fr ! j))"
        proof cases
          case 1
          then show ?thesis using mn old [OF 1] old [OF i] by simp
        next
          case 2
          then show ?thesis using False old [OF i] by (auto simp: x)
        qed
      qed
      moreover have "\<forall>j<length ?fr. fst (snd (?fr ! j)) = fst (snd (?fr ! i)) \<longrightarrow>
                      snd (snd (?fr ! j)) \<le> snd (snd (?fr ! i))"
      proof (intro allI impI)
        fix j assume "j < length ?fr" and e: "fst (snd (?fr ! j)) = fst (snd (?fr ! i))"
        then consider "j < length fr" | "j = length fr" using split by blast
        then show "snd (snd (?fr ! j)) \<le> snd (snd (?fr ! i))"
        proof cases
          case 1
          then show ?thesis using mx e old [OF 1] old [OF i] by simp
        next
          case 2
          then show ?thesis using False e old [OF i] by (auto simp: x)
        qed
      qed
      moreover have "\<forall>j<i. \<not> (fst (snd (?fr ! j)) = fst (snd (?fr ! i)) \<and>
                 snd (snd (?fr ! j)) = snd (snd (?fr ! i)))"
      proof (intro allI impI)
        fix j assume ji: "j < i"
        then have 1: "j < length fr" using i by simp
        show "\<not> (fst (snd (?fr ! j)) = fst (snd (?fr ! i)) \<and>
                 snd (snd (?fr ! j)) = snd (snd (?fr ! i)))"
          using fs ji old [OF 1] old [OF i] by simp
      qed
      ultimately show ?thesis by blast
    qed
  qed
qed

section \<open>The construction of a result\<close>

lemma deref_append:
  "deref h v = Some b \<Longrightarrow> deref (h @ h') v = Some b"
  by (auto simp: deref_def nth_append split: pyval.splits if_splits)

lemma deref_new: "deref (h @ b # h') (PRef (length h)) = Some b"
  by (simp add: deref_def)

lemma deref_new1: "deref (h @ b1 # b # h') (PRef (Suc (length h))) = Some b"
  using deref_new [of "h @ [b1]" b h'] by simp

lemma deref_new2: "deref (h @ b1 # b2 # b # h') (PRef (Suc (Suc (length h)))) = Some b"
  using deref_new [of "h @ [b1, b2]" b h'] by simp

lemma deref_new3: "deref (h @ b1 # b2 # b3 # b # h') (PRef (Suc (Suc (Suc (length h))))) = Some b"
  using deref_new [of "h @ [b1, b2, b3]" b h'] by simp

lemma deref_new4:
  "deref (h @ b1 # b2 # b3 # b4 # b # h') (PRef (Suc (Suc (Suc (Suc (length h)))))) = Some b"
  using deref_new [of "h @ [b1, b2, b3, b4]" b h'] by simp

lemma py_list_eq:
  "deref (heap w) v = Some b \<Longrightarrow>
     py_list w v = Inr (PRef (length (heap w)), w\<lparr>heap := heap w @ [b]\<rparr>)"
  by (simp add: py_list_def)

lemma py_list_Inr_iff:
  "py_list w v = Inr (v', w') \<longleftrightarrow>
     (\<exists>b. deref (heap w) v = Some b \<and> v' = PRef (length (heap w)) \<and> w' = w\<lparr>heap := heap w @ [b]\<rparr>)"
  by (auto simp: py_list_def split: option.splits)

lemma py_getitem_Inr_iff: "py_getitem d k = Inr v \<longleftrightarrow> d k = Some v"
  by (simp add: py_getitem_def split: option.splits)

lemma check_arraylike_Inr_iff:
  "check_arraylike h x name = Inr y \<longleftrightarrow> one_dimensional h x \<and> y = x"
  by (auto simp: check_arraylike_def)

lemma one_dimensional_iff:
  "one_dimensional h v \<longleftrightarrow> (\<exists>b. deref h v = Some b \<and> list_all is_number b)"
  by (simp add: one_dimensional_def split: option.splits)

lemma QAOAResult_init_Inr_iff:
  "QAOAResult_init h bb bval fr ib ig fb fg eh tb eb opt = Inr r \<longleftrightarrow>
     one_dimensional h ib \<and> one_dimensional h ig \<and> one_dimensional h fb \<and>
     one_dimensional h fg \<and> one_dimensional h eh \<and>
     r = \<lparr> best_bitvector = bb, best_value = bval, freq = fr,
           init_beta = ib, init_gamma = ig, final_beta = fb, final_gamma = fg,
           expval_history = eh, training_backend = tb,
           evaluation_backend = eb, optimizer = opt \<rparr>"
  by (auto simp: QAOAResult_init_def and_then_eq_Inr check_arraylike_Inr_iff)

lemma build_freq_eq:
  assumes bvs: "map_result BitVector (map fst raw) = Inr bvs"
    and ns: "map_result (getitem raw) (map fst raw) = Inr ns"
  shows "build_freq w qubo raw =
    Inr (zip bvs (zip (map qubo bvs) ns), w\<lparr>evaluate_log := evaluate_log w @ bvs\<rparr>)"
proof -
  have len: "length bvs = length raw" "length ns = length raw"
    using map_result_length [OF bvs] map_result_length [OF ns] by simp_all
  show ?thesis
    by (simp add: build_freq_def bvs ns evaluate_all_eq Freq_def len)
qed

lemma build_freq_InrD:
  assumes "build_freq w qubo raw = Inr (fr, w0)"
  shows "\<exists>bvs ns. map_result BitVector (map fst raw) = Inr bvs \<and>
     map_result (getitem raw) (map fst raw) = Inr ns \<and>
     fr = zip bvs (zip (map qubo bvs) ns) \<and>
     w0 = w\<lparr>evaluate_log := evaluate_log w @ bvs\<rparr>"
proof -
  from assms obtain bvs where bvs: "map_result BitVector (map fst raw) = Inr bvs"
    unfolding build_freq_def by (auto simp: and_then_eq_Inr)
  from assms bvs obtain ns where ns: "map_result (getitem raw) (map fst raw) = Inr ns"
    unfolding build_freq_def by (auto simp: and_then_eq_Inr evaluate_all_eq)
  from assms show ?thesis
    unfolding build_freq_eq [OF bvs ns] using bvs ns by auto
qed

lemma from_result_success:
  assumes bvs: "map_result BitVector (map fst raw) = Inr bvs"
    and ns: "map_result (getitem raw) (map fst raw) = Inr ns"
    and best: "find_best (zip bvs (zip (map qubo bvs) ns)) = (Some bb, Some bval, ob)"
    and p1: "props ''init_beta'' = Some p1" "deref (heap w) p1 = Some b1" "list_all is_number b1"
    and p2: "props ''init_gamma'' = Some p2" "deref (heap w) p2 = Some b2" "list_all is_number b2"
    and p3: "props ''final_beta'' = Some p3" "deref (heap w) p3 = Some b3" "list_all is_number b3"
    and p4: "props ''final_gamma'' = Some p4" "deref (heap w) p4 = Some b4" "list_all is_number b4"
    and p5: "props ''expval_history'' = Some p5" "deref (heap w) p5 = Some b5" "list_all is_number b5"
    and cf: "props ''training_backend'' = Some tb" "props ''evaluation_backend'' = Some eb"
      "props ''optimizer'' = Some opt"
  shows "from_result w qubo raw props =
    Inr (\<lparr> best_bitvector = bb, best_value = bval, freq = zip bvs (zip (map qubo bvs) ns),
           init_beta = PRef (length (heap w)), init_gamma = PRef (length (heap w) + 1),
           final_beta = PRef (length (heap w) + 2), final_gamma = PRef (length (heap w) + 3),
           expval_history = PRef (length (heap w) + 4), training_backend = tb,
           evaluation_backend = eb, optimizer = opt \<rparr>,
         w\<lparr>heap := heap w @ [b1, b2, b3, b4, b5], evaluate_log := evaluate_log w @ bvs\<rparr>)"
proof -
  show ?thesis
    unfolding from_result_def
    by (simp add: build_freq_eq [OF bvs ns] best py_getitem_def p1 p2 p3 p4 p5 cf
        py_list_eq deref_append QAOAResult_init_def check_arraylike_def one_dimensional_iff
        deref_new deref_new1 deref_new2 deref_new3 deref_new4)
qed

lemma from_result_InrD:
  assumes "from_result w qubo raw props = Inr (r, w')"
  shows "\<exists>bvs ns ob p1 p2 p3 p4 p5 b1 b2 b3 b4 b5.
     map_result BitVector (map fst raw) = Inr bvs \<and>
     map_result (getitem raw) (map fst raw) = Inr ns \<and>
     freq r = zip bvs (zip (map qubo bvs) ns) \<and>
     find_best (freq r) = (Some (best_bitvector r), Some (best_value r), ob) \<and>
     props ''init_beta'' = Some p1 \<and> deref (heap w') p1 = Some b1 \<and> list_all is_number b1 \<and>
     props ''init_gamma'' = Some p2 \<and> deref (heap w') p2 = Some b2 \<and> list_all is_number b2 \<and>
     props ''final_beta'' = Some p3 \<and> deref (heap w') p3 = Some b3 \<and> list_all is_number b3 \<and>
     props ''final_gamma'' = Some p4 \<and> deref (heap w') p4 = Some b4 \<and> list_all is_number b4 \<and>
     props ''expval_history'' = Some p5 \<and> deref (heap w') p5 = Some b5 \<and> list_all is_number b5 \<and>
     props ''training_backend'' = Some (training_backend r) \<and>
     props ''evaluation_backend'' = Some (evaluation_backend r) \<and>
     props ''optimizer'' = Some (optimizer r) \<and>
     init_beta r = PRef (length (heap w)) \<and> init_gamma r = PRef (length (heap w) + 1) \<and>
     final_beta r = PRef (length (heap w) + 2) \<and> final_gamma r = PRef (length (heap w) + 3) \<and>
     expval_history r = PRef (length (heap w) + 4) \<and>
     w' = w\<lparr>heap := heap w @ [b1, b2, b3, b4, b5], evaluate_log := evaluate_log w @ bvs\<rparr>"
proof -
  from assms obtain fr w0 where bf: "build_freq w qubo raw = Inr (fr, w0)"
    unfolding from_result_def by (auto simp: and_then_eq_Inr)
  from build_freq_InrD [OF bf] obtain bvs ns where
    bvs: "map_result BitVector (map fst raw) = Inr bvs"
    and ns: "map_result (getitem raw) (map fst raw) = Inr ns"
    and fr_def: "fr = zip bvs (zip (map qubo bvs) ns)"
    and w0_def: "w0 = w\<lparr>evaluate_log := evaluate_log w @ bvs\<rparr>"
    by blast
  have h0: "heap w0 = heap w" by (simp add: w0_def)
  obtain obb obv ob where fb: "find_best fr = (obb, obv, ob)" by (cases "find_best fr") auto
  from assms obtain bb bval where bb: "obb = Some bb" "obv = Some bval"
    unfolding from_result_def
    by (auto simp: bf fb split: option.splits)
  have rest: "and_then (py_getitem props ''init_beta'') (\<lambda>p1.
     and_then (py_list w0 p1) (\<lambda>(ib, w1).
     and_then (py_getitem props ''init_gamma'') (\<lambda>p2.
     and_then (py_list w1 p2) (\<lambda>(ig, w2).
     and_then (py_getitem props ''final_beta'') (\<lambda>p3.
     and_then (py_list w2 p3) (\<lambda>(fb, w3).
     and_then (py_getitem props ''final_gamma'') (\<lambda>p4.
     and_then (py_list w3 p4) (\<lambda>(fg, w4).
     and_then (py_getitem props ''expval_history'') (\<lambda>p5.
     and_then (py_list w4 p5) (\<lambda>(eh, w5).
     and_then (py_getitem props ''training_backend'') (\<lambda>tb.
     and_then (py_getitem props ''evaluation_backend'') (\<lambda>eb.
     and_then (py_getitem props ''optimizer'') (\<lambda>opt.
     and_then (QAOAResult_init (heap w5) bb bval fr ib ig fb fg eh tb eb opt) (\<lambda>r.
       Inr (r, w5))))))))))))))) = Inr (r, w')"
    using assms unfolding from_result_def
    by (simp add: bf fb bb)
  from rest obtain p1 p2 p3 p4 p5 b1 b2 b3 b4 b5 tb eb opt where
    props: "props ''init_beta'' = Some p1" "props ''init_gamma'' = Some p2"
      "props ''final_beta'' = Some p3" "props ''final_gamma'' = Some p4"
      "props ''expval_history'' = Some p5" "props ''training_backend'' = Some tb"
      "props ''evaluation_backend'' = Some eb" "props ''optimizer'' = Some opt"
    and d: "deref (heap w) p1 = Some b1" "deref (heap w @ [b1]) p2 = Some b2"
      "deref (heap w @ [b1, b2]) p3 = Some b3" "deref (heap w @ [b1, b2, b3]) p4 = Some b4"
      "deref (heap w @ [b1, b2, b3, b4]) p5 = Some b5"
    and init: "QAOAResult_init (heap w @ [b1, b2, b3, b4, b5]) bb bval fr
         (PRef (length (heap w))) (PRef (Suc (length (heap w))))
         (PRef (Suc (Suc (length (heap w)))))
         (PRef (Suc (Suc (Suc (length (heap w))))))
         (PRef (Suc (Suc (Suc (Suc (length (heap w))))))) tb eb opt = Inr r"
    and w': "w' = w0\<lparr>heap := heap w @ [b1, b2, b3, b4, b5]\<rparr>"
    by (auto simp: and_then_eq_Inr py_getitem_Inr_iff py_list_Inr_iff h0)
  have d': "deref (heap w') p1 = Some b1" "deref (heap w') p2 = Some b2"
    "deref (heap w') p3 = Some b3" "deref (heap w') p4 = Some b4" "deref (heap w') p5 = Some b5"
    using deref_append [OF d(1), of "[b1, b2, b3, b4, b5]"]
      deref_append [OF d(2), of "[b2, b3, b4, b5]"]
      deref_append [OF d(3), of "[b3, b4, b5]"]
      deref_append [OF d(4), of "[b4, b5]"]
      deref_append [OF d(5), of "[b5]"]
    by (simp_all add: w')
  from init have r: "r = \<lparr> best_bitvector = bb, best_value = bval, freq = fr,
           init_beta = PRef (length (heap w)), init_gamma = PRef (Suc (length (heap w))),
           final_beta = PRef (Suc (Suc (length (heap w)))),
           final_gamma = PRef (Suc (Suc (Suc (length (heap w))))),
           expval_history = PRef (Suc (Suc (Suc (Suc (length (heap w)))))),
           training_backend = tb, evaluation_backend = eb, optimizer = opt \<rparr>"
    and nums: "list_all is_number b1" "list_all is_number b2" "list_all is_number b3"
      "list_all is_number b4" "list_all is_number b5"
    by (simp_all add: QAOAResult_init_Inr_iff one_dimensional_iff
        deref_new deref_new1 deref_new2 deref_new3 deref_new4)
  have "find_best (freq r) = (Some (best_bitvector r), Some (best_value r), ob)"
    by (simp add: r fb bb)
  moreover have "freq r = zip bvs (zip (map qubo bvs) ns)" by (simp add: r fr_def)
  moreover have "w' = w\<lparr>heap := heap w @ [b1, b2, b3, b4, b5],
      evaluate_log := evaluate_log w @ bvs\<rparr>"
    by (simp add: w' w0_def)
  moreover have "init_beta r = PRef (length (heap w))" "init_gamma r = PRef (length (heap w) + 1)"
    "final_beta r = PRef (length (heap w) + 2)" "final_gamma r = PRef (length (heap w) + 3)"
    "expval_history r = PRef (length (heap w) + 4)"
    "training_backend r = tb" "evaluation_backend r = eb" "optimizer r = opt"
    by (simp_all add: r)
  ultimately show ?thesis
    using bvs ns props d' nums by blast
qed

section \<open>The histogram\<close>

lemma product01_Suc:
  "product_repeat ''01'' (Suc n) =
     map ((#) CHR ''0'') (product_repeat ''01'' n) @ map ((#) CHR ''1'') (product_repeat ''01'' n)"
  by simp

lemma length_product01: "length (product_repeat ''01'' n) = 2 ^ n"
proof (induction n)
  case 0
  show ?case by simp
next
  case (Suc n)
  have "length (product_repeat ''01'' (Suc n)) =
      length (product_repeat ''01'' n) + length (product_repeat ''01'' n)"
    by (simp only: product01_Suc length_append length_map)
  then show ?case using Suc.IH by simp
qed

lemma bits_value_acc:
  "foldl (\<lambda>acc c. 2 * acc + (if c = CHR ''1'' then 1 else 0)) a s = a * 2 ^ length s + bits_value s"
proof (induction s arbitrary: a)
  case Nil
  then show ?case by (simp add: bits_value_def)
next
  case (Cons c s)
  have "bits_value (c # s) =
      foldl (\<lambda>acc c. 2 * acc + (if c = CHR ''1'' then 1 else 0)) (if c = CHR ''1'' then 1 else 0) s"
    by (simp add: bits_value_def)
  also have "\<dots> = (if c = CHR ''1'' then 1 else 0) * 2 ^ length s + bits_value s"
    by (rule Cons.IH)
  finally have hd: "bits_value (c # s) = (if c = CHR ''1'' then 1 else 0) * 2 ^ length s + bits_value s" .
  have "foldl (\<lambda>acc c. 2 * acc + (if c = CHR ''1'' then 1 else 0)) a (c # s) =
      (2 * a + (if c = CHR ''1'' then 1 else 0)) * 2 ^ length s + bits_value s"
    by (simp add: Cons.IH)
  then show ?case by (simp add: hd algebra_simps)
qed

lemma bits_value_Nil: "bits_value [] = 0"
  by (simp add: bits_value_def)

lemma bits_value_Cons:
  "bits_value (c # s) = (if c = CHR ''1'' then 2 ^ length s else 0) + bits_value s"
  using bits_value_acc [of "if c = CHR ''1'' then 1 else 0" s]
  by (simp add: bits_value_def)

lemma bits_value_less: "bits_value s < 2 ^ length s"
  by (induction s) (simp_all add: bits_value_Nil bits_value_Cons)

lemma product01_nth:
  "k < 2 ^ n \<Longrightarrow>
     length (product_repeat ''01'' n ! k) = n \<and> list_all is_bit (product_repeat ''01'' n ! k) \<and>
     bits_value (product_repeat ''01'' n ! k) = k"
proof (induction n arbitrary: k)
  case 0
  then show ?case by (simp add: bits_value_Nil)
next
  case (Suc n)
  let ?P = "product_repeat ''01'' n"
  have len: "length ?P = 2 ^ n" by (rule length_product01)
  show ?case
  proof (cases "k < 2 ^ n")
    case True
    then have "product_repeat ''01'' (Suc n) ! k = CHR ''0'' # ?P ! k"
      by (simp only: product01_Suc) (simp add: nth_append len)
    then show ?thesis using Suc.IH [OF True] by (simp add: bits_value_Cons is_bit_def)
  next
    case False
    with Suc.prems have k: "k - 2 ^ n < 2 ^ n" by simp
    from False have "product_repeat ''01'' (Suc n) ! k = CHR ''1'' # ?P ! (k - 2 ^ n)"
      using k by (simp only: product01_Suc) (simp add: nth_append len)
    then show ?thesis using Suc.IH [OF k] False by (simp add: bits_value_Cons is_bit_def)
  qed
qed

lemma str_bitvector_bits: "list_all is_bit (str_bitvector b)" "length (str_bitvector b) = length b"
  by (induction b) (simp_all add: str_bitvector_def is_bit_def)

lemma int_base2_str:
  "b \<noteq> [] \<Longrightarrow> int_base2 (str_bitvector b) = Inr (bits_value (str_bitvector b))"
  using str_bitvector_bits [of b] by (auto simp: int_base2_def)

lemma int_base2_str_empty: "int_base2 (str_bitvector []) = Inl (IntLiteralError [])"
  by (simp add: int_base2_def str_bitvector_def)

lemma int_base2_less:
  "int_base2 (str_bitvector b) = Inr i \<Longrightarrow> i < 2 ^ length b"
  using bits_value_less [of "str_bitvector b"] str_bitvector_bits(2) [of b]
  by (auto simp: int_base2_def split: if_splits)

lemma sum_list_bump: "i < length xs \<Longrightarrow> sum_list (xs[i := xs ! i + n]) = sum_list xs + (n::int)"
proof (induction xs arbitrary: i)
  case Nil
  then show ?case by simp
next
  case (Cons x xs)
  then show ?case by (cases i) simp_all
qed

lemma total_count_Cons: "total_count ((b, v, n) # fr) = n + total_count fr"
  by (simp add: total_count_def)

lemma entries_at_Cons:
  "entries_at ((b, v, n) # fr) k =
     (if int_base2 (str_bitvector b) = Inr k then (b, v, n) # entries_at fr k else entries_at fr k)"
  by (simp add: entries_at_def)

lemma accumulate_ok:
  assumes "list_all (\<lambda>e. \<exists>i<length height. int_base2 (str_bitvector (fst e)) = Inr i) fr"
  shows "\<exists>hs. accumulate fr height = Inr hs \<and> length hs = length height \<and>
     (\<forall>k<length height. hs ! k = height ! k + total_count (entries_at fr k)) \<and>
     sum_list hs = sum_list height + total_count fr"
  using assms
proof (induction fr arbitrary: height)
  case Nil
  then show ?case by (simp add: total_count_def entries_at_def)
next
  case (Cons e fr)
  obtain b v n where e: "e = (b, v, n)" by (cases e) auto
  from Cons.prems obtain i where i: "i < length height" "int_base2 (str_bitvector b) = Inr i"
    by (auto simp: e)
  let ?h = "height[i := height ! i + n]"
  have "list_all (\<lambda>e. \<exists>i<length ?h. int_base2 (str_bitvector (fst e)) = Inr i) fr"
    using Cons.prems by simp
  from Cons.IH [OF this] obtain hs where hs: "accumulate fr ?h = Inr hs" "length hs = length ?h"
    "\<forall>k<length ?h. hs ! k = ?h ! k + total_count (entries_at fr k)"
    "sum_list hs = sum_list ?h + total_count fr"
    by blast
  have "accumulate (e # fr) height = Inr hs"
    using i hs(1) by (simp add: e)
  moreover have "length hs = length height" using hs(2) by simp
  moreover have "\<forall>k<length height. hs ! k = height ! k + total_count (entries_at (e # fr) k)"
  proof (intro allI impI)
    fix k assume k: "k < length height"
    then have "hs ! k = ?h ! k + total_count (entries_at fr k)" using hs(3) by simp
    then show "hs ! k = height ! k + total_count (entries_at (e # fr) k)"
      using i k by (cases "k = i") (auto simp: e entries_at_Cons total_count_Cons)
  qed
  moreover have "sum_list hs = sum_list height + total_count (e # fr)"
    using hs(4) sum_list_bump [OF i(1), of n] by (simp add: e total_count_Cons)
  ultimately show ?case by blast
qed

lemma accumulate_no_IndexError:
  assumes "list_all (\<lambda>e. \<forall>i. int_base2 (str_bitvector (fst e)) = Inr i \<longrightarrow> i < length height) fr"
  shows "accumulate fr height \<noteq> Inl IndexError"
  using assms
proof (induction fr arbitrary: height)
  case Nil
  then show ?case by simp
next
  case (Cons e fr)
  obtain b v n where e: "e = (b, v, n)" by (cases e) auto
  show ?case
  proof (cases "int_base2 (str_bitvector b)")
    case (Inl err)
    then have "err = IntLiteralError (str_bitvector b)"
      by (auto simp: int_base2_def split: if_splits)
    then show ?thesis using Inl by (simp add: e)
  next
    case (Inr i)
    then have i: "i < length height" using Cons.prems by (simp add: e)
    let ?h = "height[i := height ! i + n]"
    have "list_all (\<lambda>e. \<forall>i. int_base2 (str_bitvector (fst e)) = Inr i \<longrightarrow> i < length ?h) fr"
      using Cons.prems by simp
    from Cons.IH [OF this] show ?thesis using Inr i by (simp add: e)
  qed
qed

lemma histogram_positive:
  assumes bits: "all_bits (length (best_bitvector self)) (freq self)"
    and n: "0 < length (best_bitvector self) \<or> freq self = []"
  shows "\<exists>hs. plot_shots_histogram self =
        Inr (product_repeat ''01'' (length (best_bitvector self)), hs) \<and>
     length (product_repeat ''01'' (length (best_bitvector self))) = 2 ^ length (best_bitvector self) \<and>
     length hs = 2 ^ length (best_bitvector self) \<and>
     sum_list hs = total_count (freq self) \<and>
     (\<forall>k<2 ^ length (best_bitvector self). hs ! k = total_count (entries_at (freq self) k))"
proof -
  let ?n = "length (best_bitvector self)"
  let ?xs = "product_repeat ''01'' ?n"
  let ?h0 = "map (\<lambda>_. 0::int) ?xs"
  have len: "length ?h0 = 2 ^ ?n" by (simp add: length_product01)
  have "list_all (\<lambda>e. \<exists>i<length ?h0. int_base2 (str_bitvector (fst e)) = Inr i) (freq self)"
  proof (cases "freq self = []")
    case True
    then show ?thesis by simp
  next
    case False
    with n have pos: "0 < ?n" by simp
    show ?thesis
      unfolding list_all_iff
    proof
      fix e assume "e \<in> set (freq self)"
      then have l: "length (fst e) = ?n" using bits by (simp add: all_bits_def list_all_iff)
      then have ne: "fst e \<noteq> []" using pos by auto
      have "bits_value (str_bitvector (fst e)) < 2 ^ ?n"
        using bits_value_less [of "str_bitvector (fst e)"] by (simp add: str_bitvector_bits l)
      then show "\<exists>i<length ?h0. int_base2 (str_bitvector (fst e)) = Inr i"
        using int_base2_str [OF ne] len by simp
    qed
  qed
  from accumulate_ok [OF this] obtain hs where hs: "accumulate (freq self) ?h0 = Inr hs"
    "length hs = length ?h0"
    "\<forall>k<length ?h0. hs ! k = ?h0 ! k + total_count (entries_at (freq self) k)"
    "sum_list hs = sum_list ?h0 + total_count (freq self)"
    by blast
  have z: "sum_list ?h0 = 0" by (induction ?xs) simp_all
  have "plot_shots_histogram self = Inr (?xs, hs)"
    by (simp add: plot_shots_histogram_def Let_def hs(1))
  moreover have "length ?xs = 2 ^ ?n" by (rule length_product01)
  moreover have "length hs = 2 ^ ?n" using hs(2) len by simp
  moreover have "sum_list hs = total_count (freq self)" using hs(4) z by simp
  moreover have "\<forall>k<2 ^ ?n. hs ! k = total_count (entries_at (freq self) k)"
    using hs(3) len by (simp add: length_product01)
  ultimately show ?thesis by blast
qed

section \<open>Selection of the best candidate\<close>

lemma selected_unique: "selected fr i \<Longrightarrow> selected fr j \<Longrightarrow> i = j"
proof (rule ccontr)
  assume i: "selected fr i" and j: "selected fr j" and ne: "i \<noteq> j"
  have li: "i < length fr" and lj: "j < length fr" using i j by (simp_all add: selected_def)
  have s: "score_at fr i = score_at fr j"
    using i j li lj unfolding selected_def by (meson order_antisym)
  have c: "count_at fr i = count_at fr j"
    using i j li lj s unfolding selected_def by (metis order_antisym)
  from ne consider "i < j" | "j < i" by linarith
  then show False
  proof cases
    case 1
    then show ?thesis using j s c unfolding selected_def by metis
  next
    case 2
    then show ?thesis using i s c unfolding selected_def by metis
  qed
qed

lemma find_best_selected:
  assumes "fr \<noteq> []"
  shows "\<exists>i. selected fr i \<and>
     find_best fr = (Some (candidate_at fr i), Some (score_at fr i), Some (count_at fr i))"
  using find_best_spec [OF assms] unfolding selected_def by blast

lemma trace_okD:
  assumes "trace_ok h props"
  shows "\<exists>p1 p2 p3 p4 p5 b1 b2 b3 b4 b5 tb eb opt.
     props ''init_beta'' = Some p1 \<and> deref h p1 = Some b1 \<and> list_all is_number b1 \<and>
     props ''init_gamma'' = Some p2 \<and> deref h p2 = Some b2 \<and> list_all is_number b2 \<and>
     props ''final_beta'' = Some p3 \<and> deref h p3 = Some b3 \<and> list_all is_number b3 \<and>
     props ''final_gamma'' = Some p4 \<and> deref h p4 = Some b4 \<and> list_all is_number b4 \<and>
     props ''expval_history'' = Some p5 \<and> deref h p5 = Some b5 \<and> list_all is_number b5 \<and>
     props ''training_backend'' = Some tb \<and> props ''evaluation_backend'' = Some eb \<and>
     props ''optimizer'' = Some opt"
  using assms unfolding trace_ok_def
  by (simp add: one_dimensional_iff split: option.splits) blast

lemma from_result_total:
  assumes bvs: "map_result BitVector (map fst raw) = Inr bvs"
    and ns: "map_result (getitem raw) (map fst raw) = Inr ns"
    and best: "find_best (zip bvs (zip (map qubo bvs) ns)) = (Some bb, Some bval, ob)"
    and ok: "trace_ok (heap w) props"
  shows "\<exists>r w'. from_result w qubo raw props = Inr (r, w') \<and> best_bitvector r = bb \<and>
     best_value r = bval \<and> freq r = zip bvs (zip (map qubo bvs) ns)"
proof -
  from trace_okD [OF ok] obtain p1 p2 p3 p4 p5 b1 b2 b3 b4 b5 tb eb opt where
    "props ''init_beta'' = Some p1" "deref (heap w) p1 = Some b1" "list_all is_number b1"
    "props ''init_gamma'' = Some p2" "deref (heap w) p2 = Some b2" "list_all is_number b2"
    "props ''final_beta'' = Some p3" "deref (heap w) p3 = Some b3" "list_all is_number b3"
    "props ''final_gamma'' = Some p4" "deref (heap w) p4 = Some b4" "list_all is_number b4"
    "props ''expval_history'' = Some p5" "deref (heap w) p5 = Some b5" "list_all is_number b5"
    "props ''training_backend'' = Some tb" "props ''evaluation_backend'' = Some eb"
    "props ''optimizer'' = Some opt"
    by blast
  from from_result_success [OF bvs ns best this] show ?thesis by simp
qed

lemma example_inputs:
  "raw_example \<noteq> []" "list_all (list_all is_bit) (map fst raw_example)"
  "trace_ok (heap world_example) trace_example"
  by (simp_all add: raw_example_def is_bit_def trace_ok_def trace_example_def world_example_def
      one_dimensional_def deref_def is_number_def)

lemma and_then_eq_Inl:
  "and_then m f = Inl e \<longleftrightarrow> m = Inl e \<or> (\<exists>x. m = Inr x \<and> f x = Inl e)"
  by (cases m) simp_all

lemma map_result_Inl: "map_result f xs = Inl e \<Longrightarrow> \<exists>x\<in>set xs. f x = Inl e"
  by (induction xs) (auto split: sum.splits)

lemma py_getitem_Inl: "py_getitem d k = Inl e \<Longrightarrow> e = KeyError k"
  by (auto simp: py_getitem_def split: option.splits)

lemma py_list_Inl: "py_list w v = Inl e \<Longrightarrow> e = TypeError"
  by (auto simp: py_list_def split: option.splits)

lemma check_arraylike_Inl: "check_arraylike h x name = Inl e \<Longrightarrow> e = ArrayLikeError name"
  by (auto simp: check_arraylike_def split: if_splits)

lemma QAOAResult_init_Inl:
  "QAOAResult_init h bb bval fr ib ig fb fg eh tb eb opt = Inl e \<Longrightarrow>
     e \<in> ArrayLikeError ` set [''init_beta'', ''init_gamma'', ''final_beta'', ''final_gamma'',
                                ''expval_history'']"
  unfolding QAOAResult_init_def
  by (auto simp: and_then_eq_Inl dest!: check_arraylike_Inl)

lemma build_freq_Inl:
  assumes "build_freq w qubo raw = Inl e"
  shows "e \<noteq> EmptyRawResult"
proof
  assume e: "e = EmptyRawResult"
  show False
  proof (cases "map_result BitVector (map fst raw)")
    case (Inl e')
    then have "e' = EmptyRawResult" using assms e by (simp add: build_freq_def)
    with Inl map_result_Inl [of BitVector "map fst raw" e'] show False
      by (auto simp: BitVector_def split: if_splits)
  next
    case bvs: (Inr bvs)
    show False
    proof (cases "map_result (getitem raw) (map fst raw)")
      case (Inl e')
      then have "e' = EmptyRawResult" using assms e bvs
        by (simp add: build_freq_def evaluate_all_eq)
      with Inl map_result_Inl [of "getitem raw" "map fst raw" e'] show False
        by (auto simp: getitem_def dest!: py_getitem_Inl)
    next
      case (Inr ns)
      from build_freq_eq [OF bvs Inr] assms show False by simp
    qed
  qed
qed

lemma build_freq_length:
  assumes "build_freq w qubo raw = Inr (fr, w0)"
  shows "length fr = length raw"
proof -
  from build_freq_InrD [OF assms] obtain bvs ns where
    bvs: "map_result BitVector (map fst raw) = Inr bvs"
    and ns: "map_result (getitem raw) (map fst raw) = Inr ns"
    and fr: "fr = zip bvs (zip (map qubo bvs) ns)"
    by (elim exE conjE)
  show ?thesis
    using map_result_length [OF bvs] map_result_length [OF ns] by (simp add: fr)
qed

lemma example_bitvectors:
  "map_result BitVector (map fst raw_example) =
     Inr [[False, False], [False, True], [True, False], [True, True]]"
  by (simp add: raw_example_def BitVector_def is_bit_def)

lemma example_counts: "map_result (getitem raw_example) (map fst raw_example) = Inr [5, 3, 3, 1]"
  by (simp add: raw_example_def getitem_def py_getitem_def)

lemma example_best_tie:
  "find_best (zip [[False, False], [False, True], [True, False], [True, True]]
       (zip (map scores_tie [[False, False], [False, True], [True, False], [True, True]])
          [5, 3, 3, 1])) = (Some [False, True], Some 1, Some 3)"
  by (simp add: find_best_def scores_tie_def)

lemma example_best_strict:
  "find_best (zip [[False, False], [False, True], [True, False], [True, True]]
       (zip (map scores_strict [[False, False], [False, True], [True, False], [True, True]])
          [5, 3, 3, 1])) = (Some [True, False], Some (1 / 2), Some 3)"
  by (simp add: find_best_def scores_strict_def)

lemma key_bits_roundtrip: "list_all is_bit k \<Longrightarrow> str_bitvector (key_bits k) = k"
  by (induction k) (auto simp: str_bitvector_def key_bits_def is_bit_def)

lemma BitVector_key_bits: "list_all is_bit k \<Longrightarrow> BitVector k = Inr (key_bits k)"
  by (simp add: BitVector_def key_bits_def)

lemma bitvectors_key_bits:
  "list_all (list_all is_bit) keys \<Longrightarrow> map_result BitVector keys = Inr (map key_bits keys)"
  by (induction keys) (simp_all add: BitVector_key_bits)

lemma binary_key: "list_all (list_all is_bit) keys \<Longrightarrow> k \<in> set keys \<Longrightarrow> list_all is_bit k"
  by (simp add: list_all_iff)

lemma key_bits_distinct:
  assumes "distinct keys" and "list_all (list_all is_bit) keys"
  shows "distinct (map key_bits keys)"
proof -
  have "inj_on key_bits (set keys)"
  proof (rule inj_on_inverseI)
    fix k assume "k \<in> set keys"
    then have "list_all is_bit k" by (rule binary_key [OF assms(2)])
    then show "str_bitvector (key_bits k) = k" by (rule key_bits_roundtrip)
  qed
  with assms(1) show ?thesis by (simp add: distinct_map)
qed

lemma table_of_zip:
  "zip (map key_bits (map fst raw))
     (zip (map qubo (map key_bits (map fst raw))) (map snd raw)) = table_of qubo raw"
  by (induction raw) (auto simp: table_of_def)

lemma table_of_length: "length (table_of qubo raw) = length raw"
  by (simp add: table_of_def)

lemma table_of_nth:
  "i < length raw \<Longrightarrow>
     table_of qubo raw ! i = (key_bits (fst (raw ! i)), qubo (key_bits (fst (raw ! i))), snd (raw ! i))"
  by (simp add: table_of_def split: prod.splits)

lemma build_freq_table:
  assumes "distinct (map fst raw)" and "list_all (list_all is_bit) (map fst raw)"
  shows "build_freq w qubo raw =
     Inr (table_of qubo raw, w\<lparr>evaluate_log := evaluate_log w @ map key_bits (map fst raw)\<rparr>)"
  using build_freq_eq [OF bitvectors_key_bits [OF assms(2)] num_occurrences_distinct [OF assms(1)],
      of w qubo]
  by (simp only: table_of_zip)

lemma from_result_table:
  assumes d: "distinct (map fst raw)" and b: "list_all (list_all is_bit) (map fst raw)"
    and r: "from_result w qubo raw props = Inr (r, w')"
  shows "freq r = table_of qubo raw"
    and "evaluate_log w' = evaluate_log w @ map key_bits (map fst raw)"
    and "\<exists>ob. find_best (table_of qubo raw) = (Some (best_bitvector r), Some (best_value r), ob)"
proof -
  from from_result_InrD [OF r] obtain bvs ns ob b1 b2 b3 b4 b5 where
    bvs: "map_result BitVector (map fst raw) = Inr bvs"
    and ns: "map_result (getitem raw) (map fst raw) = Inr ns"
    and fr: "freq r = zip bvs (zip (map qubo bvs) ns)"
    and fb: "find_best (freq r) = (Some (best_bitvector r), Some (best_value r), ob)"
    and w': "w' = w\<lparr>heap := heap w @ [b1, b2, b3, b4, b5],
        evaluate_log := evaluate_log w @ bvs\<rparr>"
    by (elim exE conjE)
  have bvs': "bvs = map key_bits (map fst raw)"
    using bvs bitvectors_key_bits [OF b] by simp
  have ns': "ns = map snd raw"
    using ns num_occurrences_distinct [OF d] by simp
  show t: "freq r = table_of qubo raw"
    by (simp only: fr bvs' ns' table_of_zip)
  show "evaluate_log w' = evaluate_log w @ map key_bits (map fst raw)"
    by (simp add: w' bvs')
  show "\<exists>ob. find_best (table_of qubo raw) = (Some (best_bitvector r), Some (best_value r), ob)"
    using fb [unfolded t] by (rule exI)
qed

lemma from_result_returns:
  assumes ne: "raw \<noteq> []" and d: "distinct (map fst raw)"
    and b: "list_all (list_all is_bit) (map fst raw)" and ok: "trace_ok (heap w) props"
  shows "\<exists>r w' i. from_result w qubo raw props = Inr (r, w') \<and> freq r = table_of qubo raw \<and>
     selected (table_of qubo raw) i \<and> best_bitvector r = candidate_at (table_of qubo raw) i \<and>
     best_value r = score_at (table_of qubo raw) i"
proof -
  let ?t = "table_of qubo raw"
  have "?t \<noteq> []" using ne by (simp add: table_of_def)
  from find_best_selected [OF this] obtain i where i: "selected ?t i"
    "find_best ?t = (Some (candidate_at ?t i), Some (score_at ?t i), Some (count_at ?t i))"
    by (elim exE conjE)
  note total = from_result_total [OF bitvectors_key_bits [OF b] num_occurrences_distinct [OF d],
      of qubo, unfolded table_of_zip]
  from total [OF i(2) ok] obtain r w' where
    "from_result w qubo raw props = Inr (r, w')" "best_bitvector r = candidate_at ?t i"
    "best_value r = score_at ?t i" "freq r = ?t"
    by (elim exE conjE)
  with i(1) show ?thesis by (intro exI conjI)
qed

lemma example_distinct: "distinct (map fst raw_example)"
  by (simp add: raw_example_def)

lemma mutate_Nil: "mutate h [] = h"
  by (simp add: mutate_def)

lemma mutate_Cons: "mutate h ((a, b) # ups) = mutate (h[a := b]) ups"
  by (simp add: mutate_def)

lemma mutate_length: "length (mutate h ups) = length h"
proof (induction ups arbitrary: h)
  case Nil
  show ?case by (simp add: mutate_Nil)
next
  case (Cons u ups)
  obtain a b where u: "u = (a, b)" by (cases u) auto
  show ?case by (simp add: u mutate_Cons Cons.IH)
qed

lemma mutate_nth:
  "list_all (\<lambda>(a, b). a < n) ups \<Longrightarrow> n \<le> k \<Longrightarrow> mutate h ups ! k = h ! k"
proof (induction ups arbitrary: h)
  case Nil
  show ?case by (simp add: mutate_Nil)
next
  case (Cons u ups)
  obtain a b where u: "u = (a, b)" by (cases u) auto
  from Cons.prems have "a < n" "list_all (\<lambda>(a, b). a < n) ups" by (simp_all add: u)
  with Cons.IH [of "h[a := b]"] Cons.prems(2) show ?case
    by (simp add: u mutate_Cons)
qed

lemma deref_mutate:
  assumes "owned_by_caller w ups" and "length (heap w) \<le> k"
  shows "deref (mutate h ups) (PRef k) = deref h (PRef k)"
  using mutate_nth [of "length (heap w)" ups k h] assms
  by (simp add: deref_def mutate_length owned_by_caller_def)

lemma deref_offset:
  "k < length bs \<Longrightarrow> deref (h @ bs) (PRef (length h + k)) = Some (bs ! k)"
  by (simp add: deref_def nth_append)

lemma copied_field:
  assumes "owned_by_caller w ups" and "deref (heap w) p = Some b" and "list_all is_number b"
    and "props name = Some p" and "length (heap w) \<le> k" and "deref h' (PRef k) = Some b"
  shows "\<exists>p b. props name = Some p \<and> deref (heap w) p = Some b \<and> list_all is_number b \<and>
     deref h' (PRef k) = Some b \<and> deref (mutate h' ups) (PRef k) = Some b"
  using assms deref_mutate [OF assms(1) assms(5), of h'] by auto

lemma example_writes: "owned_by_caller world_example writes_example"
  by (simp add: owned_by_caller_def world_example_def writes_example_def)

lemma histogram_labels:
  assumes "k < 2 ^ n" and "0 < n"
  shows "length (product_repeat ''01'' n ! k) = n \<and> int_base2 (product_repeat ''01'' n ! k) = Inr k"
proof -
  from product01_nth [OF assms(1)] have l: "length (product_repeat ''01'' n ! k) = n"
    and b: "list_all is_bit (product_repeat ''01'' n ! k)"
    and v: "bits_value (product_repeat ''01'' n ! k) = k"
    by simp_all
  from l assms(2) have "product_repeat ''01'' n ! k \<noteq> []" by auto
  then show ?thesis using l b v by (simp add: int_base2_def)
qed

lemma histogram_heights:
  assumes "all_bits (length (best_bitvector self)) (freq self)"
    and "0 < length (best_bitvector self) \<or> freq self = []"
  shows "plot_shots_histogram self =
     Inr (product_repeat ''01'' (length (best_bitvector self)),
          bucket_heights (length (best_bitvector self)) (freq self))"
proof -
  let ?n = "length (best_bitvector self)"
  from histogram_positive [OF assms] obtain hs where
    p: "plot_shots_histogram self = Inr (product_repeat ''01'' ?n, hs)"
    and l: "length hs = 2 ^ ?n"
    and h: "\<forall>k<2 ^ ?n. hs ! k = total_count (entries_at (freq self) k)"
    by (elim exE conjE)
  have "hs = bucket_heights ?n (freq self)"
  proof (rule nth_equalityI)
    show "length hs = length (bucket_heights ?n (freq self))"
      by (simp add: l bucket_heights_def)
    fix k assume "k < length hs"
    then have k: "k < 2 ^ ?n" by (simp add: l)
    then show "hs ! k = bucket_heights ?n (freq self) ! k"
      using h by (simp add: bucket_heights_def)
  qed
  with p show ?thesis by simp
qed

lemma histogram_no_bits:
  assumes "all_bits 0 (freq self)" and "length (best_bitvector self) = 0" and "freq self \<noteq> []"
  shows "plot_shots_histogram self = Inl (IntLiteralError [])"
proof -
  from assms(3) obtain e rest where fr: "freq self = e # rest" by (cases "freq self") auto
  obtain b v n where e: "e = (b, v, n)" by (cases e) auto
  have "b = []" using assms(1) by (simp add: all_bits_def fr e)
  then show ?thesis
    by (simp add: plot_shots_histogram_def Let_def fr e int_base2_str_empty)
qed

lemma decoded_index_bound:
  assumes "all_bits n fr" and "e \<in> set fr" and "int_base2 (str_bitvector (fst e)) = Inr i"
  shows "i < 2 ^ n"
proof -
  have "length (fst e) = n" using assms(1,2) by (simp add: all_bits_def list_all_iff)
  with int_base2_less [OF assms(3)] show ?thesis by simp
qed

lemma QAOAResult_init_eq:
  "QAOAResult_init h bb bval fr ib ig fb fg eh tb eb opt =
     (case find (\<lambda>(name, v). \<not> one_dimensional h v) (zip trace_names [ib, ig, fb, fg, eh]) of
        None \<Rightarrow>
          Inr \<lparr> best_bitvector = bb, best_value = bval, freq = fr,
                init_beta = ib, init_gamma = ig, final_beta = fb, final_gamma = fg,
                expval_history = eh, training_backend = tb,
                evaluation_backend = eb, optimizer = opt \<rparr>
      | Some (name, v) \<Rightarrow> Inl (ArrayLikeError name))"
  by (simp add: QAOAResult_init_def check_arraylike_def trace_names_def)

lemma two_lengths_result:
  "map_sum id fst (from_result world_example scores_length raw_two_lengths trace_example) =
     Inr \<lparr> best_bitvector = [False], best_value = 1,
           freq = [([False], 1, 1), ([True, True], 2, 2)],
           init_beta = PRef 5, init_gamma = PRef 6, final_beta = PRef 7, final_gamma = PRef 8,
           expval_history = PRef 9, training_backend = PConfig ''training'',
           evaluation_backend = PConfig ''evaluation'', optimizer = PConfig ''optimizer'' \<rparr>"
  by (simp add: from_result_def build_freq_def raw_two_lengths_def trace_example_def
      world_example_def scores_length_def BitVector_def is_bit_def evaluate_def getitem_def
      py_getitem_def Freq_def find_best_def py_list_def deref_def QAOAResult_init_def
      check_arraylike_def one_dimensional_def is_number_def)

section \<open>Claims\<close>

text \<open>
  C1. For every non-empty raw sample map (with pairwise distinct binary keys and a
  well-formed trace bundle) \<^verbatim>\<open>from_result\<close> returns a result whose table is the input
  map in its order (the bits of each key, the objective at these bits, the count of the
  key) and whose best candidate and best score are those of exactly one entry of that
  table: the entry of a key whose score is minimal across the table, whose count is
  maximal among the entries with that score, and which is the first, in the order of
  the input map, of the entries that tie with it on both score and count.
\<close>

theorem best_candidate_selection:
  assumes "raw \<noteq> []" and "distinct (map fst raw)"
    and "list_all (list_all is_bit) (map fst raw)" and "trace_ok (heap w) props"
  shows "\<exists>r w' i. from_result w qubo raw props = Inr (r, w') \<and>
     freq r = table_of qubo raw \<and>
     selected (table_of qubo raw) i \<and>
     (\<forall>j. selected (table_of qubo raw) j \<longrightarrow> j = i) \<and>
     i < length raw \<and>
     best_bitvector r = key_bits (fst (raw ! i)) \<and>
     str_bitvector (best_bitvector r) = fst (raw ! i) \<and>
     best_value r = qubo (key_bits (fst (raw ! i)))"
proof -
  let ?t = "table_of qubo raw"
  from from_result_returns [OF assms, where qubo = qubo] obtain r w' i where
    r: "from_result w qubo raw props = Inr (r, w')" and fr: "freq r = ?t"
    and sel: "selected ?t i" and bb: "best_bitvector r = candidate_at ?t i"
    and bv: "best_value r = score_at ?t i"
    by (elim exE conjE)
  have i: "i < length raw" using sel by (simp add: selected_def table_of_length)
  have uniq: "\<forall>j. selected ?t j \<longrightarrow> j = i"
    by (intro allI impI) (rule selected_unique [OF _ sel])
  have "fst (raw ! i) \<in> set (map fst raw)" using i by simp
  then have bits: "list_all is_bit (fst (raw ! i))"
    by (rule binary_key [OF assms(3)])
  have bb': "best_bitvector r = key_bits (fst (raw ! i))"
    by (simp add: bb table_of_nth [OF i])
  have str: "str_bitvector (best_bitvector r) = fst (raw ! i)"
    by (simp only: bb' key_bits_roundtrip [OF bits])
  have bv': "best_value r = qubo (key_bits (fst (raw ! i)))"
    by (simp add: bv table_of_nth [OF i])
  show ?thesis
  proof (rule exI [of _ r], rule exI [of _ w'], rule exI [of _ i], intro conjI)
    show "from_result w qubo raw props = Inr (r, w')" by (rule r)
    show "freq r = ?t" by (rule fr)
    show "selected ?t i" by (rule sel)
    show "\<forall>j. selected ?t j \<longrightarrow> j = i" by (rule uniq)
    show "i < length raw" by (rule i)
    show "best_bitvector r = key_bits (fst (raw ! i))" by (rule bb')
    show "str_bitvector (best_bitvector r) = fst (raw ! i)" by (rule str)
    show "best_value r = qubo (key_bits (fst (raw ! i)))" by (rule bv')
  qed
qed

theorem best_candidate_selection_witness:
  "raw_example \<noteq> [] \<and> distinct (map fst raw_example) \<and>
   list_all (list_all is_bit) (map fst raw_example) \<and>
   trace_ok (heap world_example) trace_example \<and>
   (\<exists>r w' i. from_result world_example scores_tie raw_example trace_example = Inr (r, w') \<and>
     freq r = table_of scores_tie raw_example \<and>
     selected (table_of scores_tie raw_example) i \<and>
     (\<forall>j. selected (table_of scores_tie raw_example) j \<longrightarrow> j = i) \<and>
     i < length raw_example \<and>
     best_bitvector r = key_bits (fst (raw_example ! i)) \<and>
     str_bitvector (best_bitvector r) = fst (raw_example ! i) \<and>
     best_value r = scores_tie (key_bits (fst (raw_example ! i))))"
proof (intro conjI)
  show "raw_example \<noteq> []" by (rule example_inputs(1))
  show "distinct (map fst raw_example)" by (rule example_distinct)
  show "list_all (list_all is_bit) (map fst raw_example)" by (rule example_inputs(2))
  show "trace_ok (heap world_example) trace_example" by (rule example_inputs(3))
  show "\<exists>r w' i. from_result world_example scores_tie raw_example trace_example = Inr (r, w') \<and>
     freq r = table_of scores_tie raw_example \<and>
     selected (table_of scores_tie raw_example) i \<and>
     (\<forall>j. selected (table_of scores_tie raw_example) j \<longrightarrow> j = i) \<and>
     i < length raw_example \<and>
     best_bitvector r = key_bits (fst (raw_example ! i)) \<and>
     str_bitvector (best_bitvector r) = fst (raw_example ! i) \<and>
     best_value r = scores_tie (key_bits (fst (raw_example ! i)))"
    by (rule best_candidate_selection
        [OF example_inputs(1) example_distinct example_inputs(2) example_inputs(3)])
qed

text \<open>
  C2. For the empty raw sample map \<^verbatim>\<open>from_result\<close> raises the error of lines 109 to
  111 (the specification's \<^verbatim>\<open>EmptyResultError\<close>, a \<^verbatim>\<open>ValueError\<close> in the code) and
  returns no result, whatever the objective and the trace bundle are; for a non-empty
  map it never raises that error.
\<close>

theorem empty_raw_result:
  "from_result w qubo [] props = Inl EmptyRawResult \<and>
   (raw \<noteq> [] \<longrightarrow> from_result w qubo raw props \<noteq> Inl EmptyRawResult)"
proof
  show "from_result w qubo [] props = Inl EmptyRawResult"
    by (simp add: from_result_def build_freq_def Freq_def find_best_def)
next
  show "raw \<noteq> [] \<longrightarrow> from_result w qubo raw props \<noteq> Inl EmptyRawResult"
  proof (intro impI notI)
    assume ne: "raw \<noteq> []" and eq: "from_result w qubo raw props = Inl EmptyRawResult"
    show False
    proof (cases "build_freq w qubo raw")
      case (Inl e)
      then have "e = EmptyRawResult" using eq by (simp add: from_result_def)
      with build_freq_Inl [OF Inl] show False by simp
    next
      case (Inr p)
      obtain fr w0 where p: "p = (fr, w0)" by (cases p) auto
      have "fr \<noteq> []" using build_freq_length [OF Inr [unfolded p]] ne by auto
      from find_best_selected [OF this] obtain i where
        fb: "find_best fr = (Some (candidate_at fr i), Some (score_at fr i), Some (count_at fr i))"
        by blast
      from eq show False
        unfolding from_result_def
        by (auto simp: Inr p fb and_then_eq_Inl
            dest!: py_getitem_Inl py_list_Inl QAOAResult_init_Inl)
    qed
  qed
qed

theorem empty_raw_result_witness:
  "from_result world_example scores_tie [] trace_example = Inl EmptyRawResult \<and>
   raw_example \<noteq> [] \<and>
   from_result world_example scores_tie raw_example trace_example \<noteq> Inl EmptyRawResult"
  using empty_raw_result [of world_example scores_tie trace_example raw_example]
  by (simp add: raw_example_def)

text \<open>
  C3, as stated, fails: with \<^verbatim>\<open>final_beta\<close> of length 3 and \<^verbatim>\<open>final_gamma\<close> of
  length 4 the constructor returns a result.
\<close>

theorem unequal_lengths_accepted:
  "deref (heap world_example) (PRef 2) = Some [PNum 5, PNum 6, PNum 7] \<and>
   deref (heap world_example) (PRef 3) = Some [PNum 8, PNum 9, PNum 10, PNum 11] \<and>
   QAOAResult_init (heap world_example) [False, True] 1 [] (PRef 0) (PRef 1) (PRef 2) (PRef 3)
       (PRef 4) (PConfig ''training'') (PConfig ''evaluation'') (PConfig ''optimizer'') =
     Inr \<lparr> best_bitvector = [False, True], best_value = 1, freq = [],
           init_beta = PRef 0, init_gamma = PRef 1, final_beta = PRef 2, final_gamma = PRef 3,
           expval_history = PRef 4, training_backend = PConfig ''training'',
           evaluation_backend = PConfig ''evaluation'', optimizer = PConfig ''optimizer'' \<rparr>"
  by (simp add: QAOAResult_init_def check_arraylike_def one_dimensional_def deref_def
      world_example_def is_number_def)

text \<open>
  C3, as amended. Constructing a result from one-dimensional \<^verbatim>\<open>final_beta\<close> and
  \<^verbatim>\<open>final_gamma\<close> succeeds whatever their lengths are, equal or not, when the other
  three array-likes are one-dimensional: the constructor validates the dimension of
  each array-like on its own and compares no lengths. The claim as stated (a failure at
  construction for the lengths 3 and 4) does not hold.
\<close>

theorem any_lengths_accepted:
  assumes "deref h fb = Some beta" and "list_all is_number beta"
    and "deref h fg = Some gamma" and "list_all is_number gamma"
    and "one_dimensional h ib" and "one_dimensional h ig" and "one_dimensional h eh"
  shows "\<exists>r. QAOAResult_init h bb bval fr ib ig fb fg eh tb eb opt = Inr r \<and>
     r = \<lparr> best_bitvector = bb, best_value = bval, freq = fr,
           init_beta = ib, init_gamma = ig, final_beta = fb, final_gamma = fg,
           expval_history = eh, training_backend = tb,
           evaluation_backend = eb, optimizer = opt \<rparr> \<and>
     deref h (final_beta r) = Some beta \<and> deref h (final_gamma r) = Some gamma"
  using assms by (simp add: QAOAResult_init_Inr_iff one_dimensional_iff)

theorem any_lengths_accepted_witness:
  "deref (heap world_example) (PRef 2) = Some [PNum 5, PNum 6, PNum 7] \<and>
   list_all is_number [PNum 5, PNum 6, PNum 7] \<and>
   deref (heap world_example) (PRef 3) = Some [PNum 8, PNum 9, PNum 10, PNum 11] \<and>
   list_all is_number [PNum 8, PNum 9, PNum 10, PNum 11] \<and>
   one_dimensional (heap world_example) (PRef 0) \<and>
   one_dimensional (heap world_example) (PRef 1) \<and>
   one_dimensional (heap world_example) (PRef 4) \<and>
   length [PNum 5, PNum 6, PNum 7] \<noteq> length [PNum 8, PNum 9, PNum 10, PNum 11] \<and>
   (\<exists>r. QAOAResult_init (heap world_example) [] 0 [] (PRef 0) (PRef 1) (PRef 2) (PRef 3) (PRef 4)
          (PConfig ''training'') (PConfig ''evaluation'') (PConfig ''optimizer'') = Inr r \<and>
     deref (heap world_example) (final_beta r) = Some [PNum 5, PNum 6, PNum 7] \<and>
     deref (heap world_example) (final_gamma r) = Some [PNum 8, PNum 9, PNum 10, PNum 11])"
proof -
  have b: "deref (heap world_example) (PRef 2) = Some [PNum 5, PNum 6, PNum 7]"
    and g: "deref (heap world_example) (PRef 3) = Some [PNum 8, PNum 9, PNum 10, PNum 11]"
    by (simp_all add: deref_def world_example_def)
  have nb: "list_all is_number [PNum 5, PNum 6, PNum 7]"
    and ng: "list_all is_number [PNum 8, PNum 9, PNum 10, PNum 11]"
    by (simp_all add: is_number_def)
  have o: "one_dimensional (heap world_example) (PRef 0)"
    "one_dimensional (heap world_example) (PRef 1)"
    "one_dimensional (heap world_example) (PRef 4)"
    by (simp_all add: one_dimensional_def deref_def world_example_def is_number_def)
  from any_lengths_accepted [OF b nb g ng o, of "[]" 0 "[]" "PConfig ''training''"
      "PConfig ''evaluation''" "PConfig ''optimizer''"]
  have "\<exists>r. QAOAResult_init (heap world_example) [] 0 [] (PRef 0) (PRef 1) (PRef 2) (PRef 3) (PRef 4)
          (PConfig ''training'') (PConfig ''evaluation'') (PConfig ''optimizer'') = Inr r \<and>
     deref (heap world_example) (final_beta r) = Some [PNum 5, PNum 6, PNum 7] \<and>
     deref (heap world_example) (final_gamma r) = Some [PNum 8, PNum 9, PNum 10, PNum 11]"
    by (elim exE conjE) (intro exI conjI, assumption+)
  with b g nb ng o show ?thesis by simp
qed

text \<open>
  C4. For a result whose candidates all have \<open>n\<close> bits the histogram should have
  \<open>2 ^ n\<close> buckets whose heights sum to the sum of the counts. The lemma
  \<open>histogram_positive\<close> proves this for \<open>n > 0\<close> and for an empty table. For
  \<open>n = 0\<close> and a table that is not empty the code raises instead of returning the
  one bucket: \<^verbatim>\<open>int("", 2)\<close> is a \<^verbatim>\<open>ValueError\<close>. The theorem evaluates the code at
  such a result, whose counts sum to 5.
\<close>

theorem histogram_fails_without_bits:
  "all_bits (length (best_bitvector result_no_bits)) (freq result_no_bits) \<and>
   length (best_bitvector result_no_bits) = 0 \<and>
   total_count (freq result_no_bits) = 5 \<and>
   plot_shots_histogram result_no_bits = Inl (IntLiteralError [])"
  by (simp add: result_no_bits_def all_bits_def total_count_def plot_shots_histogram_def
      Let_def str_bitvector_def int_base2_def)

text \<open>
  C5. Each of the \<open>2 ^ n\<close> bitstrings, in binary-counting order, should get the sum
  of the counts of the entries that decode to its index, and zero when there is none.
  The lemmas \<open>histogram_heights\<close> and \<open>histogram_labels\<close> prove this for
  \<open>n > 0\<close> and for an empty table. For the result that \<^verbatim>\<open>from_result\<close> builds from
  the map with the single key \<^verbatim>\<open>""\<close> and the count 5 the code raises instead of
  returning the one bucket of height 5: the same defect as in C4.
\<close>

theorem histogram_of_empty_key_fails:
  "map_sum id (\<lambda>(r, w'). (best_bitvector r, freq r, plot_shots_histogram r))
     (from_result world_example scores_length raw_no_bits trace_example) =
   Inr ([], [([], 0, 5)], Inl (IntLiteralError []))"
  by (simp add: from_result_def build_freq_def raw_no_bits_def trace_example_def
      world_example_def scores_length_def BitVector_def is_bit_def evaluate_def getitem_def
      py_getitem_def Freq_def find_best_def py_list_def deref_def QAOAResult_init_def
      check_arraylike_def one_dimensional_def is_number_def plot_shots_histogram_def
      Let_def str_bitvector_def int_base2_def)

text \<open>
  C6. For every raw sample map (with pairwise distinct binary keys) the first block of
  \<^verbatim>\<open>from_result\<close> builds a frequency table with exactly one entry per key, in the
  order of the map: the candidate of entry \<open>i\<close> is the bit vector of key \<open>i\<close>, its
  score is the objective at that candidate, its count is the count the map gives the
  key. The objective is evaluated exactly once per key, in that order, and not again
  before \<^verbatim>\<open>from_result\<close> returns; the table of the returned result is this table.
\<close>

theorem frequency_table_build:
  assumes "distinct (map fst raw)" and "list_all (list_all is_bit) (map fst raw)"
  shows "build_freq w qubo raw =
       Inr (table_of qubo raw, w\<lparr>evaluate_log := evaluate_log w @ map key_bits (map fst raw)\<rparr>) \<and>
     length (table_of qubo raw) = length raw \<and>
     (\<forall>i<length raw.
        BitVector (fst (raw ! i)) = Inr (key_bits (fst (raw ! i))) \<and>
        str_bitvector (key_bits (fst (raw ! i))) = fst (raw ! i) \<and>
        table_of qubo raw ! i =
          (key_bits (fst (raw ! i)), qubo (key_bits (fst (raw ! i))), snd (raw ! i))) \<and>
     distinct (map fst (table_of qubo raw)) \<and>
     (\<forall>props r w'. from_result w qubo raw props = Inr (r, w') \<longrightarrow>
        freq r = table_of qubo raw \<and>
        evaluate_log w' = evaluate_log w @ map fst (table_of qubo raw)) \<and>
     (\<forall>props. raw \<noteq> [] \<and> trace_ok (heap w) props \<longrightarrow>
        (\<exists>r w'. from_result w qubo raw props = Inr (r, w') \<and> freq r = table_of qubo raw))"
proof (intro conjI)
  show "build_freq w qubo raw =
       Inr (table_of qubo raw, w\<lparr>evaluate_log := evaluate_log w @ map key_bits (map fst raw)\<rparr>)"
    by (rule build_freq_table [OF assms])
  show "length (table_of qubo raw) = length raw" by (rule table_of_length)
  show "\<forall>i<length raw.
        BitVector (fst (raw ! i)) = Inr (key_bits (fst (raw ! i))) \<and>
        str_bitvector (key_bits (fst (raw ! i))) = fst (raw ! i) \<and>
        table_of qubo raw ! i =
          (key_bits (fst (raw ! i)), qubo (key_bits (fst (raw ! i))), snd (raw ! i))"
  proof (intro allI impI)
    fix i assume i: "i < length raw"
    then have "fst (raw ! i) \<in> set (map fst raw)" by simp
    then have bits: "list_all is_bit (fst (raw ! i))"
      by (rule binary_key [OF assms(2)])
    show "BitVector (fst (raw ! i)) = Inr (key_bits (fst (raw ! i))) \<and>
        str_bitvector (key_bits (fst (raw ! i))) = fst (raw ! i) \<and>
        table_of qubo raw ! i =
          (key_bits (fst (raw ! i)), qubo (key_bits (fst (raw ! i))), snd (raw ! i))"
      using BitVector_key_bits [OF bits] key_bits_roundtrip [OF bits] table_of_nth [OF i]
      by (intro conjI)
  qed
  have keys: "map fst (table_of qubo raw) = map key_bits (map fst raw)"
    by (induction raw) (auto simp: table_of_def)
  show "distinct (map fst (table_of qubo raw))"
    by (simp only: keys key_bits_distinct [OF assms])
  show "\<forall>props r w'. from_result w qubo raw props = Inr (r, w') \<longrightarrow>
        freq r = table_of qubo raw \<and>
        evaluate_log w' = evaluate_log w @ map fst (table_of qubo raw)"
  proof (intro allI impI)
    fix props r w' assume r: "from_result w qubo raw props = Inr (r, w')"
    show "freq r = table_of qubo raw \<and>
        evaluate_log w' = evaluate_log w @ map fst (table_of qubo raw)"
      using from_result_table(1,2) [OF assms r] by (simp only: keys)
  qed
  show "\<forall>props. raw \<noteq> [] \<and> trace_ok (heap w) props \<longrightarrow>
        (\<exists>r w'. from_result w qubo raw props = Inr (r, w') \<and> freq r = table_of qubo raw)"
  proof (intro allI impI)
    fix props assume h: "raw \<noteq> [] \<and> trace_ok (heap w) props"
    from from_result_returns [OF conjunct1 [OF h] assms conjunct2 [OF h], where qubo = qubo]
    obtain r w' where "from_result w qubo raw props = Inr (r, w')" "freq r = table_of qubo raw"
      by (elim exE conjE)
    then show "\<exists>r w'. from_result w qubo raw props = Inr (r, w') \<and> freq r = table_of qubo raw"
      by (intro exI conjI)
  qed
qed

theorem frequency_table_build_witness:
  "distinct (map fst raw_example) \<and> list_all (list_all is_bit) (map fst raw_example) \<and>
   build_freq world_example scores_tie raw_example =
     Inr (table_of scores_tie raw_example,
          world_example\<lparr>evaluate_log :=
            evaluate_log world_example @ map key_bits (map fst raw_example)\<rparr>) \<and>
   length (table_of scores_tie raw_example) = length raw_example"
proof (intro conjI)
  note build = frequency_table_build [OF example_distinct example_inputs(2),
      of world_example scores_tie]
  show "distinct (map fst raw_example)" by (rule example_distinct)
  show "list_all (list_all is_bit) (map fst raw_example)" by (rule example_inputs(2))
  show "build_freq world_example scores_tie raw_example =
     Inr (table_of scores_tie raw_example,
          world_example\<lparr>evaluate_log :=
            evaluate_log world_example @ map key_bits (map fst raw_example)\<rparr>)"
    by (rule build [THEN conjunct1])
  show "length (table_of scores_tie raw_example) = length raw_example"
    by (rule build [THEN conjunct2, THEN conjunct1])
qed

text \<open>
  C7. For the map \<^verbatim>\<open>{"00": 5, "01": 3, "10": 3, "11": 1}\<close> with the scores 2, 1, 1, 5
  \<^verbatim>\<open>from_result\<close> returns the best candidate \<^verbatim>\<open>"01"\<close> with the best score 1 (the
  tie with \<^verbatim>\<open>"10"\<close> goes to the entry met first); with the scores 2, 1, 0.5, 5 it
  returns \<^verbatim>\<open>"10"\<close> with the best score 0.5.
\<close>

theorem worked_examples:
  assumes "trace_ok (heap w) props"
  shows "(\<exists>r w'. from_result w scores_tie raw_example props = Inr (r, w') \<and>
            str_bitvector (best_bitvector r) = ''01'' \<and> best_value r = 1) \<and>
         (\<exists>r w'. from_result w scores_strict raw_example props = Inr (r, w') \<and>
            str_bitvector (best_bitvector r) = ''10'' \<and> best_value r = 1 / 2)"
proof
  from from_result_total [OF example_bitvectors example_counts example_best_tie assms]
  obtain r w' where "from_result w scores_tie raw_example props = Inr (r, w')"
    "best_bitvector r = [False, True]" "best_value r = 1"
    by (elim exE conjE)
  then have "from_result w scores_tie raw_example props = Inr (r, w') \<and>
      str_bitvector (best_bitvector r) = ''01'' \<and> best_value r = 1"
    by (simp add: str_bitvector_def)
  then show "\<exists>r w'. from_result w scores_tie raw_example props = Inr (r, w') \<and>
      str_bitvector (best_bitvector r) = ''01'' \<and> best_value r = 1"
    by (intro exI)
next
  from from_result_total [OF example_bitvectors example_counts example_best_strict assms]
  obtain r w' where "from_result w scores_strict raw_example props = Inr (r, w')"
    "best_bitvector r = [True, False]" "best_value r = 1 / 2"
    by (elim exE conjE)
  then have "from_result w scores_strict raw_example props = Inr (r, w') \<and>
      str_bitvector (best_bitvector r) = ''10'' \<and> best_value r = 1 / 2"
    by (simp add: str_bitvector_def)
  then show "\<exists>r w'. from_result w scores_strict raw_example props = Inr (r, w') \<and>
      str_bitvector (best_bitvector r) = ''10'' \<and> best_value r = 1 / 2"
    by (intro exI)
qed

theorem worked_examples_witness:
  "trace_ok (heap world_example) trace_example \<and>
   (\<exists>r w'. from_result world_example scores_tie raw_example trace_example = Inr (r, w') \<and>
            str_bitvector (best_bitvector r) = ''01'' \<and> best_value r = 1) \<and>
   (\<exists>r w'. from_result world_example scores_strict raw_example trace_example = Inr (r, w') \<and>
            str_bitvector (best_bitvector r) = ''10'' \<and> best_value r = 1 / 2)"
proof (rule conjI)
  show "trace_ok (heap world_example) trace_example" by (rule example_inputs(3))
  show "(\<exists>r w'. from_result world_example scores_tie raw_example trace_example = Inr (r, w') \<and>
            str_bitvector (best_bitvector r) = ''01'' \<and> best_value r = 1) \<and>
   (\<exists>r w'. from_result world_example scores_strict raw_example trace_example = Inr (r, w') \<and>
            str_bitvector (best_bitvector r) = ''10'' \<and> best_value r = 1 / 2)"
    by (rule worked_examples [OF example_inputs(3)])
qed

text \<open>
  C8. For every result that \<^verbatim>\<open>from_result\<close> returns, each of the five array-like
  fields refers to a buffer of numbers that holds what the corresponding input held
  at construction, and any later sequence of writes of the caller into buffers that
  existed before the call leaves the contents of the five fields unchanged.
\<close>

theorem trace_fields_copied:
  assumes "raw \<noteq> []" and "list_all (list_all is_bit) (map fst raw)"
    and "trace_ok (heap w) props" and "owned_by_caller w ups"
  shows "\<exists>r w'. from_result w qubo raw props = Inr (r, w') \<and>
     list_all2 (\<lambda>name field. \<exists>p b. props name = Some p \<and> deref (heap w) p = Some b \<and>
          list_all is_number b \<and> deref (heap w') field = Some b \<and>
          deref (mutate (heap w') ups) field = Some b)
       trace_names (trace_fields r)"
proof -
  obtain bvs where bvs: "map_result BitVector (map fst raw) = Inr bvs"
    using bitvectors_total [OF assms(2)] by blast
  obtain ns where ns: "map_result (getitem raw) (map fst raw) = Inr ns"
    using num_occurrences_total by blast
  define fr where "fr = zip bvs (zip (map qubo bvs) ns)"
  have "length fr = length raw"
    using map_result_length [OF bvs] map_result_length [OF ns] by (simp add: fr_def)
  then have "fr \<noteq> []" using assms(1) by auto
  from find_best_selected [OF this] obtain i where
    best: "find_best fr = (Some (candidate_at fr i), Some (score_at fr i), Some (count_at fr i))"
    by (elim exE conjE)
  from trace_okD [OF assms(3)] obtain p1 p2 p3 p4 p5 b1 b2 b3 b4 b5 tb eb opt where
    p1: "props ''init_beta'' = Some p1" "deref (heap w) p1 = Some b1" "list_all is_number b1"
    and p2: "props ''init_gamma'' = Some p2" "deref (heap w) p2 = Some b2" "list_all is_number b2"
    and p3: "props ''final_beta'' = Some p3" "deref (heap w) p3 = Some b3" "list_all is_number b3"
    and p4: "props ''final_gamma'' = Some p4" "deref (heap w) p4 = Some b4" "list_all is_number b4"
    and p5: "props ''expval_history'' = Some p5" "deref (heap w) p5 = Some b5"
      "list_all is_number b5"
    and cf: "props ''training_backend'' = Some tb" "props ''evaluation_backend'' = Some eb"
      "props ''optimizer'' = Some opt"
    by (elim exE conjE)
  let ?n = "length (heap w)"
  let ?h = "heap w @ [b1, b2, b3, b4, b5]"
  define r where "r = \<lparr> best_bitvector = candidate_at fr i, best_value = score_at fr i, freq = fr,
           init_beta = PRef ?n, init_gamma = PRef (?n + 1),
           final_beta = PRef (?n + 2), final_gamma = PRef (?n + 3),
           expval_history = PRef (?n + 4), training_backend = tb,
           evaluation_backend = eb, optimizer = opt \<rparr>"
  define w' where "w' = w\<lparr>heap := ?h, evaluate_log := evaluate_log w @ bvs\<rparr>"
  have res: "from_result w qubo raw props = Inr (r, w')"
    unfolding r_def w'_def fr_def
    by (rule from_result_success [OF bvs ns best [unfolded fr_def] p1 p2 p3 p4 p5 cf])
  have h': "heap w' = ?h" by (simp add: w'_def)
  have f1: "\<exists>p b. props ''init_beta'' = Some p \<and> deref (heap w) p = Some b \<and>
      list_all is_number b \<and> deref ?h (PRef ?n) = Some b \<and>
      deref (mutate ?h ups) (PRef ?n) = Some b"
    by (rule copied_field [where props = props and name = "''init_beta''", OF assms(4) p1(2) p1(3) p1(1)]) (simp_all add: deref_new)
  have f2: "\<exists>p b. props ''init_gamma'' = Some p \<and> deref (heap w) p = Some b \<and>
      list_all is_number b \<and> deref ?h (PRef (?n + 1)) = Some b \<and>
      deref (mutate ?h ups) (PRef (?n + 1)) = Some b"
    by (rule copied_field [where props = props and name = "''init_gamma''", OF assms(4) p2(2) p2(3) p2(1)]) (simp_all add: deref_new1 deref_new2 deref_new3 deref_new4 deref_offset)
  have f3: "\<exists>p b. props ''final_beta'' = Some p \<and> deref (heap w) p = Some b \<and>
      list_all is_number b \<and> deref ?h (PRef (?n + 2)) = Some b \<and>
      deref (mutate ?h ups) (PRef (?n + 2)) = Some b"
    by (rule copied_field [where props = props and name = "''final_beta''", OF assms(4) p3(2) p3(3) p3(1)]) (simp_all add: deref_new1 deref_new2 deref_new3 deref_new4 deref_offset)
  have f4: "\<exists>p b. props ''final_gamma'' = Some p \<and> deref (heap w) p = Some b \<and>
      list_all is_number b \<and> deref ?h (PRef (?n + 3)) = Some b \<and>
      deref (mutate ?h ups) (PRef (?n + 3)) = Some b"
    by (rule copied_field [where props = props and name = "''final_gamma''", OF assms(4) p4(2) p4(3) p4(1)]) (simp_all add: deref_new1 deref_new2 deref_new3 deref_new4 deref_offset)
  have f5: "\<exists>p b. props ''expval_history'' = Some p \<and> deref (heap w) p = Some b \<and>
      list_all is_number b \<and> deref ?h (PRef (?n + 4)) = Some b \<and>
      deref (mutate ?h ups) (PRef (?n + 4)) = Some b"
    by (rule copied_field [where props = props and name = "''expval_history''", OF assms(4) p5(2) p5(3) p5(1)]) (simp_all add: deref_new1 deref_new2 deref_new3 deref_new4 deref_offset)
  have "list_all2 (\<lambda>name field. \<exists>p b. props name = Some p \<and> deref (heap w) p = Some b \<and>
          list_all is_number b \<and> deref (heap w') field = Some b \<and>
          deref (mutate (heap w') ups) field = Some b)
       trace_names (trace_fields r)"
    unfolding h' trace_names_def trace_fields_def
    using f1 f2 f3 f4 f5 by (simp add: r_def)
  with res show ?thesis by (intro exI conjI)
qed

theorem trace_fields_copied_witness:
  "raw_example \<noteq> [] \<and> list_all (list_all is_bit) (map fst raw_example) \<and>
   trace_ok (heap world_example) trace_example \<and> owned_by_caller world_example writes_example \<and>
   (\<exists>r w'. from_result world_example scores_tie raw_example trace_example = Inr (r, w') \<and>
     list_all2 (\<lambda>name field. \<exists>p b. trace_example name = Some p \<and>
          deref (heap world_example) p = Some b \<and>
          list_all is_number b \<and> deref (heap w') field = Some b \<and>
          deref (mutate (heap w') writes_example) field = Some b)
       trace_names (trace_fields r))"
proof (intro conjI)
  show "raw_example \<noteq> []" by (rule example_inputs(1))
  show "list_all (list_all is_bit) (map fst raw_example)" by (rule example_inputs(2))
  show "trace_ok (heap world_example) trace_example" by (rule example_inputs(3))
  show "owned_by_caller world_example writes_example" by (rule example_writes)
  show "\<exists>r w'. from_result world_example scores_tie raw_example trace_example = Inr (r, w') \<and>
     list_all2 (\<lambda>name field. \<exists>p b. trace_example name = Some p \<and>
          deref (heap world_example) p = Some b \<and>
          list_all is_number b \<and> deref (heap w') field = Some b \<and>
          deref (mutate (heap w') writes_example) field = Some b)
       trace_names (trace_fields r)"
    by (rule trace_fields_copied [OF example_inputs example_writes])
qed

text \<open>
  C9. The constructor accepts its arguments exactly when each of the five array-like
  fields \<^verbatim>\<open>init_beta\<close>, \<^verbatim>\<open>init_gamma\<close>, \<^verbatim>\<open>final_beta\<close>, \<^verbatim>\<open>final_gamma\<close>,
  \<^verbatim>\<open>expval_history\<close> is one-dimensional, and then stores every argument; when one
  of them is not one-dimensional, construction fails with the error of the validation
  of the first such field, in the order of the constructor, and no result is returned.
\<close>

theorem constructor_validation:
  "(list_all (one_dimensional h) [ib, ig, fb, fg, eh] \<longrightarrow>
      QAOAResult_init h bb bval fr ib ig fb fg eh tb eb opt =
        Inr \<lparr> best_bitvector = bb, best_value = bval, freq = fr,
              init_beta = ib, init_gamma = ig, final_beta = fb, final_gamma = fg,
              expval_history = eh, training_backend = tb,
              evaluation_backend = eb, optimizer = opt \<rparr>) \<and>
   (\<not> list_all (one_dimensional h) [ib, ig, fb, fg, eh] \<longrightarrow>
      (\<exists>name v. find (\<lambda>(name, v). \<not> one_dimensional h v)
                   (zip trace_names [ib, ig, fb, fg, eh]) = Some (name, v) \<and>
         QAOAResult_init h bb bval fr ib ig fb fg eh tb eb opt = Inl (ArrayLikeError name)))"
  by (simp add: QAOAResult_init_eq) (simp add: trace_names_def)

theorem constructor_validation_witness:
  "list_all (one_dimensional (heap world_example)) [PRef 0, PRef 1, PRef 2, PRef 3, PRef 4] \<and>
   QAOAResult_init (heap world_example) [False, True] 1 [] (PRef 0) (PRef 1) (PRef 2) (PRef 3)
       (PRef 4) (PConfig ''training'') (PConfig ''evaluation'') (PConfig ''optimizer'') =
     Inr \<lparr> best_bitvector = [False, True], best_value = 1, freq = [],
           init_beta = PRef 0, init_gamma = PRef 1, final_beta = PRef 2, final_gamma = PRef 3,
           expval_history = PRef 4, training_backend = PConfig ''training'',
           evaluation_backend = PConfig ''evaluation'', optimizer = PConfig ''optimizer'' \<rparr> \<and>
   \<not> list_all (one_dimensional (heap world_example))
       [PRef 0, PRef 1, PRef 2, PRef 3, scalar_example] \<and>
   QAOAResult_init (heap world_example) [False, True] 1 [] (PRef 0) (PRef 1) (PRef 2) (PRef 3)
       scalar_example (PConfig ''training'') (PConfig ''evaluation'') (PConfig ''optimizer'') =
     Inl (ArrayLikeError ''expval_history'')"
proof -
  have good: "list_all (one_dimensional (heap world_example))
      [PRef 0, PRef 1, PRef 2, PRef 3, PRef 4]"
    by (simp add: one_dimensional_def deref_def world_example_def is_number_def)
  have bad: "\<not> list_all (one_dimensional (heap world_example))
      [PRef 0, PRef 1, PRef 2, PRef 3, scalar_example]"
    by (simp add: one_dimensional_def deref_def scalar_example_def)
  have first: "find (\<lambda>(name, v). \<not> one_dimensional (heap world_example) v)
      (zip trace_names [PRef 0, PRef 1, PRef 2, PRef 3, scalar_example]) = Some (name, v) \<Longrightarrow>
      name = ''expval_history''" for name v
    using good by (simp add: trace_names_def split: if_splits)
  note ok = constructor_validation [of "heap world_example" "PRef 0" "PRef 1" "PRef 2" "PRef 3"
      "PRef 4" "[False, True]" 1 "[]" "PConfig ''training''" "PConfig ''evaluation''"
      "PConfig ''optimizer''", THEN conjunct1, rule_format, OF good]
  note ko = constructor_validation [of "heap world_example" "PRef 0" "PRef 1" "PRef 2" "PRef 3"
      scalar_example "[False, True]" 1 "[]" "PConfig ''training''" "PConfig ''evaluation''"
      "PConfig ''optimizer''", THEN conjunct2, rule_format, OF bad]
  from ko first have "QAOAResult_init (heap world_example) [False, True] 1 [] (PRef 0) (PRef 1)
       (PRef 2) (PRef 3) scalar_example (PConfig ''training'') (PConfig ''evaluation'')
       (PConfig ''optimizer'') = Inl (ArrayLikeError ''expval_history'')"
    by (elim exE conjE) simp
  with good bad ok show ?thesis by (intro conjI)
qed

text \<open>
  C10. When every candidate of the frequency table has as many bits as the stored best
  bit vector, \<open>n\<close>, every index decoded from a candidate is below \<open>2 ^ n\<close>, for
  \<open>n > 0\<close> every candidate decodes to such an index, and the accumulation never
  raises \<^verbatim>\<open>IndexError\<close>: the histogram is the list of the \<open>2 ^ n\<close> labels with the
  heights of the specification, except for \<open>n = 0\<close> and a table that is not empty,
  where decoding a candidate without bits raises \<^verbatim>\<open>ValueError\<close>. Without the
  precondition the indexing can fail: the result built from the map
  \<^verbatim>\<open>{"0": 1, "11": 2}\<close> has a one-bit best candidate and its histogram raises
  \<^verbatim>\<open>IndexError\<close>.
\<close>

theorem histogram_index_in_range:
  "(all_bits (length (best_bitvector self)) (freq self) \<longrightarrow>
      plot_shots_histogram self \<noteq> Inl IndexError \<and>
      plot_shots_histogram self =
        (if 0 < length (best_bitvector self) \<or> freq self = []
         then Inr (product_repeat ''01'' (length (best_bitvector self)),
                   bucket_heights (length (best_bitvector self)) (freq self))
         else Inl (IntLiteralError [])) \<and>
      (\<forall>e\<in>set (freq self). \<forall>i. int_base2 (str_bitvector (fst e)) = Inr i \<longrightarrow>
          i < 2 ^ length (best_bitvector self)) \<and>
      (\<forall>e\<in>set (freq self). 0 < length (best_bitvector self) \<longrightarrow>
          (\<exists>i<2 ^ length (best_bitvector self). int_base2 (str_bitvector (fst e)) = Inr i))) \<and>
   (\<exists>r. map_sum id fst (from_result world_example scores_length raw_two_lengths trace_example)
          = Inr r \<and>
        \<not> all_bits (length (best_bitvector r)) (freq r) \<and>
        plot_shots_histogram r = Inl IndexError)"
proof (intro conjI impI)
  assume bits: "all_bits (length (best_bitvector self)) (freq self)"
  let ?n = "length (best_bitvector self)"
  show eq: "plot_shots_histogram self =
        (if 0 < ?n \<or> freq self = []
         then Inr (product_repeat ''01'' ?n, bucket_heights ?n (freq self))
         else Inl (IntLiteralError []))"
  proof (cases "0 < ?n \<or> freq self = []")
    case True
    then show ?thesis using histogram_heights [OF bits True] by simp
  next
    case False
    then have "?n = 0" "freq self \<noteq> []" by simp_all
    with histogram_no_bits [of self] bits False show ?thesis by simp
  qed
  show "plot_shots_histogram self \<noteq> Inl IndexError"
    by (simp add: eq)
  show "\<forall>e\<in>set (freq self). \<forall>i. int_base2 (str_bitvector (fst e)) = Inr i \<longrightarrow> i < 2 ^ ?n"
    using decoded_index_bound [OF bits] by blast
  show "\<forall>e\<in>set (freq self). 0 < ?n \<longrightarrow> (\<exists>i<2 ^ ?n. int_base2 (str_bitvector (fst e)) = Inr i)"
  proof (intro ballI impI)
    fix e assume e: "e \<in> set (freq self)" and n: "0 < ?n"
    have "length (fst e) = ?n" using bits e by (simp add: all_bits_def list_all_iff)
    with n have "fst e \<noteq> []" by auto
    from int_base2_str [OF this] decoded_index_bound [OF bits e]
    show "\<exists>i<2 ^ ?n. int_base2 (str_bitvector (fst e)) = Inr i" by simp
  qed
next
  show "\<exists>r. map_sum id fst (from_result world_example scores_length raw_two_lengths trace_example)
          = Inr r \<and>
        \<not> all_bits (length (best_bitvector r)) (freq r) \<and>
        plot_shots_histogram r = Inl IndexError"
    unfolding two_lengths_result
    by (simp add: all_bits_def plot_shots_histogram_def Let_def str_bitvector_def int_base2_def
        is_bit_def bits_value_def)
qed

theorem histogram_index_in_range_witness:
  "all_bits (length (best_bitvector result_example)) (freq result_example) \<and>
   plot_shots_histogram result_example \<noteq> Inl IndexError \<and>
   plot_shots_histogram result_example =
     Inr (product_repeat ''01'' 2, bucket_heights 2 (freq result_example))"
proof -
  have bits: "all_bits (length (best_bitvector result_example)) (freq result_example)"
    by (simp add: all_bits_def result_example_def)
  have n: "length (best_bitvector result_example) = 2" by (simp add: result_example_def)
  note h = histogram_index_in_range [of result_example, THEN conjunct1, rule_format, OF bits]
  from h have "plot_shots_histogram result_example \<noteq> Inl IndexError" by (rule conjunct1)
  moreover from h have "plot_shots_histogram result_example =
     Inr (product_repeat ''01'' 2, bucket_heights 2 (freq result_example))"
    by (simp add: n)
  ultimately show ?thesis using bits by (intro conjI)
qed

end
